theory Spec2Isabelle
  imports Main "HOL-Library.AList"
begin

section \<open>Strings and integers of the Go runtime\<close>

text \<open>
  Go strings are byte sequences and are modelled as \<open>string\<close> (a list of 8-bit
  characters). Go's \<open>int\<close> is modelled as the unbounded \<open>int\<close>: every counter of
  the program (sequence numbers, queue lengths, job counts) stays far below \<open>2^63\<close>,
  and the one place where the 64-bit range is visible, \<open>strconv.Atoi\<close>, checks it
  explicitly below.
\<close>

definition isSpace :: "char \<Rightarrow> bool" where
  \<comment> \<open>the ASCII white space of \<open>unicode.IsSpace\<close> (tab, LF, VT, FF, CR, space); the
      non-ASCII spaces U+0085, U+00A0, ... are left out\<close>
  "isSpace c = (c \<in> set [CHR 0x09, CHR 0x0A, CHR 0x0B, CHR 0x0C, CHR 0x0D, CHR 0x20])"

definition TrimSpace :: "string \<Rightarrow> string" where
  "TrimSpace s = rev (dropWhile isSpace (rev (dropWhile isSpace s)))"

definition HasPrefix :: "string \<Rightarrow> string \<Rightarrow> bool" where
  "HasPrefix s p = (take (length p) s = p)"

definition TrimPrefix :: "string \<Rightarrow> string \<Rightarrow> string" where
  "TrimPrefix s p = (if HasPrefix s p then drop (length p) s else s)"

fun digits :: "nat \<Rightarrow> string" where
  "digits n = (if n < 10 then [''0123456789'' ! n]
               else digits (n div 10) @ [''0123456789'' ! (n mod 10)])"

declare digits.simps [simp del]

definition itoa :: "int \<Rightarrow> string" where
  \<comment> \<open>\<open>%d\<close> of \<open>fmt.Sprintf\<close>\<close>
  "itoa i = (if i < 0 then CHR ''-'' # digits (nat (- i)) else digits (nat i))"

definition digitVal :: "char \<Rightarrow> nat option" where
  \<comment> \<open>\<open>ch - '0'\<close> when that is at most 9\<close>
  "digitVal c =
     (let n = (of_char c :: nat) in if 48 \<le> n \<and> n \<le> 57 then Some (n - 48) else None)"

fun parseDigits :: "nat \<Rightarrow> string \<Rightarrow> nat option" where
  "parseDigits acc [] = Some acc"
| "parseDigits acc (c # cs) =
     (case digitVal c of None \<Rightarrow> None | Some d \<Rightarrow> parseDigits (acc * 10 + d) cs)"

definition Atoi :: "string \<Rightarrow> int option" where
  \<comment> \<open>\<open>strconv.Atoi\<close> on a 64-bit platform: an optional sign, at least one decimal
      digit, and a value in the range of \<open>int\<close>; \<open>None\<close> is the error return
      (syntax or range)\<close>
  "Atoi s =
     (let neg = (case s of [] \<Rightarrow> False | c # _ \<Rightarrow> c = CHR ''-'');
          ds = (case s of [] \<Rightarrow> [] | c # r \<Rightarrow> if c = CHR ''-'' \<or> c = CHR ''+'' then r else s)
      in if ds = [] then None
         else (case parseDigits 0 ds of
                 None \<Rightarrow> None
               | Some n \<Rightarrow>
                   (let v = (if neg then - int n else int n)
                    in if - (2 ^ 63) \<le> v \<and> v < 2 ^ 63 then Some v else None)))"

section \<open>The Worker's data (worker/main.go)\<close>

type_synonym JobStatus = string

definition StatusQueued :: JobStatus where "StatusQueued = ''queued''"
definition StatusRunning :: JobStatus where "StatusRunning = ''running''"
definition StatusCompleted :: JobStatus where "StatusCompleted = ''completed''"
definition StatusFailed :: JobStatus where "StatusFailed = ''failed''"
definition StatusCancelled :: JobStatus where "StatusCancelled = ''cancelled''"

text \<open>
  A request body after JSON decoding. Each message is kept as the JSON text of its
  object and each option as a key with the JSON text of its value; \<open>json.Marshal\<close>
  of them is then the assembly of an array or an object.
\<close>

record JobRequest =
  req_Model :: string
  req_Messages :: "string list"
  req_Prompt :: string
  req_Options :: "(string \<times> string) list"

record JobResponse =
  resp_JobID :: string
  resp_Status :: JobStatus

record ChunkData =
  Seq :: int
  Delta :: string
  Done :: bool
  FinishReason :: string
  Error :: string

record EventsResponse =
  ev_Status :: JobStatus
  ev_Chunks :: "ChunkData list"

record StatusResponse =
  st_Status :: JobStatus
  st_CreatedAt :: string
  st_CompletedAt :: string
  st_Error :: string

record JobMeta =
  meta_Status :: JobStatus
  meta_Model :: string
  meta_CreatedAt :: string
  meta_CompletedAt :: string
  meta_Error :: string

record OllamaStreamResponse =
  msg_Content :: string
  rec_Done :: bool
  rec_DoneReason :: string

section \<open>Storage: the chunk store\<close>

text \<open>
  The Redis keyspace of one deployment: per job id the hash \<open>job:ID:meta\<close> (an
  association list of fields; the empty list is the absent key), the list
  \<open>job:ID:chunks\<close> and the counter \<open>job:ID:seq\<close> (0 is the absent key), and the
  expiry set on each of the three keys. The list holds the chunks themselves: what
  \<open>AddChunk\<close> marshals is what \<open>GetChunks\<close> unmarshals.

  Every Redis command can fail. \<open>faults\<close> is the schedule of outcomes of the
  commands still to come, one entry per command: \<open>Some e\<close> makes the command fail
  with error \<open>e\<close> and leave the data alone; past the end of the schedule every
  command succeeds. An error return is \<open>Some e\<close> of \<open>string option\<close> (\<open>None\<close> is
  Go's \<open>nil\<close>), or \<open>Inl e\<close> where a value is returned as well.
\<close>

record Storage =
  metas :: "string \<Rightarrow> (string \<times> string) list"
  chunkLists :: "string \<Rightarrow> ChunkData list"
  seqs :: "string \<Rightarrow> int"
  ttl_meta :: "string \<Rightarrow> nat option"
  ttl_chunks :: "string \<Rightarrow> nat option"
  ttl_seq :: "string \<Rightarrow> nat option"
  faults :: "string option list"

definition rdb :: "Storage \<Rightarrow> string option \<times> Storage" where
  \<comment> \<open>one round trip to Redis: the next outcome of the schedule\<close>
  "rdb s = (case faults s of [] \<Rightarrow> (None, s) | f # fs \<Rightarrow> (f, s\<lparr>faults := fs\<rparr>))"

definition hset :: "(string \<times> string) list \<Rightarrow> (string \<times> string) list \<Rightarrow> (string \<times> string) list" where
  \<comment> \<open>the fields of an \<open>HSET\<close> written into a hash\<close>
  "hset h fvs = foldl (\<lambda>h' (k, v). AList.update k v h') h fvs"

definition hget :: "(string \<times> string) list \<Rightarrow> string \<Rightarrow> string" where
  \<comment> \<open>\<open>result[k]\<close> on the Go map of an \<open>HGETALL\<close>: a missing field reads as the
      empty string\<close>
  "hget h k = (case map_of h k of None \<Rightarrow> [] | Some v \<Rightarrow> v)"

definition HSet :: "Storage \<Rightarrow> string \<Rightarrow> (string \<times> string) list \<Rightarrow> string option \<times> Storage" where
  "HSet s jobID fvs =
     (case rdb s of
        (Some e, s') \<Rightarrow> (Some e, s')
      | (None, s') \<Rightarrow> (None, s'\<lparr>metas := (metas s')(jobID := hset (metas s' jobID) fvs)\<rparr>))"

definition HGet :: "Storage \<Rightarrow> string \<Rightarrow> string \<Rightarrow> string \<times> Storage" where
  \<comment> \<open>\<open>HGet(...).Result()\<close> with the error dropped, as both call sites do: the empty
      string on a failure or a missing field\<close>
  "HGet s jobID field =
     (case rdb s of
        (Some e, s') \<Rightarrow> ([], s')
      | (None, s') \<Rightarrow> (hget (metas s' jobID) field, s'))"

definition Storage_CreateJob :: "Storage \<Rightarrow> string \<Rightarrow> JobMeta \<Rightarrow> string option \<times> Storage" where
  "Storage_CreateJob s jobID meta =
     HSet s jobID [(''status'', meta_Status meta), (''model'', meta_Model meta),
                   (''created_at'', meta_CreatedAt meta)]"

definition GetJobMeta :: "Storage \<Rightarrow> string \<Rightarrow> (string + JobMeta) \<times> Storage" where
  "GetJobMeta s jobID =
     (case rdb s of
        (Some e, s') \<Rightarrow> (Inl e, s')
      | (None, s') \<Rightarrow>
          (let result = metas s' jobID
           in if length result = 0 then (Inl ''job not found'', s')
              else (Inr \<lparr>meta_Status = hget result ''status'',
                         meta_Model = hget result ''model'',
                         meta_CreatedAt = hget result ''created_at'',
                         meta_CompletedAt = hget result ''completed_at'',
                         meta_Error = hget result ''error''\<rparr>, s')))"

definition UpdateJobStatus :: "Storage \<Rightarrow> string \<Rightarrow> JobStatus \<Rightarrow> string \<Rightarrow> string \<Rightarrow> string option \<times> Storage" where
  "UpdateJobStatus s jobID status completedAt errorMsg =
     HSet s jobID ([(''status'', status)]
        @ (if completedAt \<noteq> [] then [(''completed_at'', completedAt)] else [])
        @ (if errorMsg \<noteq> [] then [(''error'', errorMsg)] else []))"

definition AddChunk :: "Storage \<Rightarrow> string \<Rightarrow> ChunkData \<Rightarrow> string option \<times> Storage" where
  "AddChunk s jobID chunk =
     (case rdb s of
        (Some e, s') \<Rightarrow> (Some e, s')
      | (None, s') \<Rightarrow>
          (None, s'\<lparr>chunkLists := (chunkLists s')(jobID := chunkLists s' jobID @ [chunk])\<rparr>))"

fun collectChunks :: "int \<Rightarrow> ChunkData list \<Rightarrow> ChunkData list \<Rightarrow> ChunkData list" where
  \<comment> \<open>the loop of \<open>GetChunks\<close> over the items of the list, \<open>chunks\<close> being the slice
      built so far\<close>
  "collectChunks fromSeq chunks [] = chunks"
| "collectChunks fromSeq chunks (chunk # result) =
     (if Seq chunk > fromSeq
      then (let chunks' = chunks @ [chunk]
            in if length chunks' \<ge> 1000 then chunks'
               else collectChunks fromSeq chunks' result)
      else collectChunks fromSeq chunks result)"

definition GetChunks :: "Storage \<Rightarrow> string \<Rightarrow> int \<Rightarrow> (string + ChunkData list) \<times> Storage" where
  "GetChunks s jobID fromSeq =
     (case rdb s of
        (Some e, s') \<Rightarrow> (Inl e, s')
      | (None, s') \<Rightarrow> (Inr (collectChunks fromSeq [] (chunkLists s' jobID)), s'))"

definition IncrSeq :: "Storage \<Rightarrow> string \<Rightarrow> (string + int) \<times> Storage" where
  "IncrSeq s jobID =
     (case rdb s of
        (Some e, s') \<Rightarrow> (Inl e, s')
      | (None, s') \<Rightarrow>
          (Inr (seqs s' jobID + 1), s'\<lparr>seqs := (seqs s')(jobID := seqs s' jobID + 1)\<rparr>))"

definition SetTTL :: "Storage \<Rightarrow> string \<Rightarrow> nat \<Rightarrow> string option \<times> Storage" where
  \<comment> \<open>three \<open>EXPIRE\<close> commands, stopping at the first that fails; \<open>EXPIRE\<close> on an
      absent key changes nothing\<close>
  "SetTTL s jobID ttl =
     (case rdb s of
        (Some e, s1) \<Rightarrow> (Some e, s1)
      | (None, s1) \<Rightarrow>
          (let s1' = (if metas s1 jobID \<noteq> []
                      then s1\<lparr>ttl_meta := (ttl_meta s1)(jobID \<mapsto> ttl)\<rparr> else s1)
           in case rdb s1' of
                (Some e, s2) \<Rightarrow> (Some e, s2)
              | (None, s2) \<Rightarrow>
                  (let s2' = (if chunkLists s2 jobID \<noteq> []
                              then s2\<lparr>ttl_chunks := (ttl_chunks s2)(jobID \<mapsto> ttl)\<rparr> else s2)
                   in case rdb s2' of
                        (Some e, s3) \<Rightarrow> (Some e, s3)
                      | (None, s3) \<Rightarrow>
                          (None, if seqs s3 jobID \<noteq> 0
                                 then s3\<lparr>ttl_seq := (ttl_seq s3)(jobID \<mapsto> ttl)\<rparr> else s3))))"

section \<open>Worker: admission, cancellation registry and executor\<close>

text \<open>
  The in-process state of the Worker. \<open>queue\<close> is the buffered channel (its
  contents, oldest first; its capacity is \<open>maxQueueSize\<close>), \<open>cancelled\<close> the map
  of cancelled job ids (a missing key reads as false). \<open>Server\<close> holds the same
  \<open>Storage\<close> and \<open>Worker\<close> pointers, so the handlers below take the Worker.
\<close>

record Worker =
  storage :: Storage
  concurrency :: int
  maxQueueSize :: int
  queue :: "string list"
  cancelled :: "string \<Rightarrow> bool"
  activeJobs :: int
  queuedJobs :: int

definition NewWorker :: "Storage \<Rightarrow> int \<Rightarrow> Worker" where
  \<comment> \<open>the \<open>n\<close> executor goroutines it starts are part of \<open>sys\<close> below; for a
      negative \<open>n\<close> the source panics in \<open>make\<close>, which is not modelled\<close>
  "NewWorker st n =
     \<lparr>storage = st, concurrency = n, maxQueueSize = n * 2, queue = [],
      cancelled = (\<lambda>_. False), activeJobs = 0, queuedJobs = 0\<rparr>"

text \<open>
  \<open>Enqueue\<close> in its three atomic parts: the load check on a snapshot read under the
  mutex, the non-blocking send to the channel, and the increment of \<open>queuedJobs\<close>
  under the mutex. \<open>Enqueue\<close> itself is the three run without interruption.
\<close>

definition Enqueue_check :: "Worker \<Rightarrow> string option" where
  "Enqueue_check w =
     (let currentActive = activeJobs w;
          currentQueued = int (length (queue w));
          totalLoad = currentActive + currentQueued
      in if totalLoad \<ge> maxQueueSize w
         then Some (''queue full: active='' @ itoa currentActive @ '', queued=''
                    @ itoa currentQueued @ '', max='' @ itoa (maxQueueSize w))
         else None)"

definition Enqueue_send :: "Worker \<Rightarrow> string \<Rightarrow> Worker option" where
  \<comment> \<open>\<open>select { case w.queue <- jobID: ... default: ... }\<close>: \<open>None\<close> is the default
      branch, taken when the buffer is full\<close>
  "Enqueue_send w jobID =
     (if int (length (queue w)) < maxQueueSize w
      then Some (w\<lparr>queue := queue w @ [jobID]\<rparr>) else None)"

definition Enqueue_count :: "Worker \<Rightarrow> Worker" where
  "Enqueue_count w = w\<lparr>queuedJobs := queuedJobs w + 1\<rparr>"

definition Enqueue :: "Worker \<Rightarrow> string \<Rightarrow> string option \<times> Worker" where
  "Enqueue w jobID =
     (case Enqueue_check w of
        Some e \<Rightarrow> (Some e, w)
      | None \<Rightarrow>
          (case Enqueue_send w jobID of
             Some w' \<Rightarrow> (None, Enqueue_count w')
           | None \<Rightarrow> (Some ''queue channel full'', w)))"

definition GetStats :: "Worker \<Rightarrow> (string \<times> int) list" where
  "GetStats w =
     [(''active'', activeJobs w), (''queued'', int (length (queue w))),
      (''capacity'', concurrency w), (''max_queue'', maxQueueSize w)]"

definition Cancel :: "Worker \<Rightarrow> string \<Rightarrow> Worker" where
  "Cancel w jobID = w\<lparr>cancelled := (cancelled w)(jobID := True)\<rparr>"

definition isCancelled :: "Worker \<Rightarrow> string \<Rightarrow> bool" where
  "isCancelled w jobID = cancelled w jobID"

text \<open>The parts of one round of \<open>run\<close> around \<open>processJob\<close>.\<close>

definition run_begin :: "Worker \<Rightarrow> Worker" where
  "run_begin w = w\<lparr>activeJobs := activeJobs w + 1, queuedJobs := queuedJobs w - 1\<rparr>"

definition run_end :: "Worker \<Rightarrow> Worker" where
  "run_end w = w\<lparr>activeJobs := activeJobs w - 1\<rparr>"

definition finishJobWithError :: "Worker \<Rightarrow> string \<Rightarrow> string \<Rightarrow> string \<Rightarrow> Worker" where
  \<comment> \<open>\<open>now\<close> is the reading of the clock; the three errors are dropped as in the
      source, a failed \<open>IncrSeq\<close> leaving \<open>seq\<close> at 0\<close>
  "finishJobWithError w jobID errorMsg now =
     (let (r, s1) = IncrSeq (storage w) jobID;
          seq = (case r of Inl e \<Rightarrow> 0 | Inr v \<Rightarrow> v);
          chunk = \<lparr>Seq = seq, Delta = [], Done = True, FinishReason = ''error'',
                   Error = errorMsg\<rparr>;
          (e2, s2) = AddChunk s1 jobID chunk;
          (e3, s3) = UpdateJobStatus s2 jobID StatusFailed now errorMsg
      in w\<lparr>storage := s3\<rparr>)"

section \<open>Server: the Worker's HTTP handlers\<close>

datatype body =
    NoBody
  | PlainText string
  | ErrorEnvelope string string string
  | JobJSON JobResponse
  | EventsJSON EventsResponse
  | StatusJSON StatusResponse

record response =
  code :: nat
  body :: body

fun joinWith :: "string \<Rightarrow> string list \<Rightarrow> string" where
  "joinWith sep [] = []"
| "joinWith sep [x] = x"
| "joinWith sep (x # y # ys) = x @ sep @ joinWith sep (y # ys)"

definition marshalMessages :: "string list \<Rightarrow> string" where
  "marshalMessages ms = ''['' @ joinWith '','' ms @ '']''"

definition marshalOptions :: "(string \<times> string) list \<Rightarrow> string" where
  "marshalOptions os =
     ''{'' @ joinWith '','' (map (\<lambda>(k, v). [CHR 0x22] @ k @ [CHR 0x22] @ '':'' @ v) os) @ ''}''"

definition Server_CreateJob ::
  "Worker \<Rightarrow> string + JobRequest \<Rightarrow> string \<Rightarrow> string \<Rightarrow> response \<times> Worker" where
  \<comment> \<open>\<open>reqBody\<close> is the outcome of decoding the request body, \<open>jobID\<close> the fresh
      UUID and \<open>now\<close> the clock\<close>
  "Server_CreateJob w reqBody jobID now =
     (case reqBody of
        Inl err \<Rightarrow> (\<lparr>code = 400, body = PlainText err\<rparr>, w)
      | Inr req \<Rightarrow>
          (let meta = \<lparr>meta_Status = StatusQueued, meta_Model = req_Model req,
                       meta_CreatedAt = now, meta_CompletedAt = [], meta_Error = []\<rparr>
           in case Storage_CreateJob (storage w) jobID meta of
                (Some err, s1) \<Rightarrow> (\<lparr>code = 500, body = PlainText err\<rparr>, w\<lparr>storage := s1\<rparr>)
              | (None, s1) \<Rightarrow>
                  (let s2 = (if length (req_Messages req) > 0
                             then snd (HSet s1 jobID
                                    [(''messages'', marshalMessages (req_Messages req))])
                             else s1);
                       s3 = (if length (req_Options req) > 0
                             then snd (HSet s2 jobID
                                    [(''options'', marshalOptions (req_Options req))])
                             else s2)
                   in case Enqueue (w\<lparr>storage := s3\<rparr>) jobID of
                        (Some err, w4) \<Rightarrow>
                          (let (e5, s5) = UpdateJobStatus (storage w4) jobID StatusFailed now err
                           in (\<lparr>code = 429,
                                body = ErrorEnvelope (''Service overloaded: '' @ err)
                                         ''server_error'' ''rate_limit_exceeded''\<rparr>,
                               w4\<lparr>storage := s5\<rparr>))
                      | (None, w4) \<Rightarrow>
                          (\<lparr>code = 200,
                            body = JobJSON \<lparr>resp_JobID = jobID, resp_Status = StatusQueued\<rparr>\<rparr>,
                           w4))))"

definition Server_GetEvents :: "Worker \<Rightarrow> string \<Rightarrow> string \<Rightarrow> response \<times> Worker" where
  \<comment> \<open>\<open>seqStr\<close> is the \<open>from_seq\<close> query parameter, empty when absent\<close>
  "Server_GetEvents w jobID seqStr =
     (let fromSeq = (if seqStr \<noteq> []
                     then (case Atoi seqStr of Some seq \<Rightarrow> seq | None \<Rightarrow> - 1)
                     else - 1)
      in case GetJobMeta (storage w) jobID of
           (Inl err, s1) \<Rightarrow> (\<lparr>code = 404, body = PlainText ''job not found''\<rparr>, w\<lparr>storage := s1\<rparr>)
         | (Inr meta, s1) \<Rightarrow>
             (case GetChunks s1 jobID fromSeq of
                (Inl err, s2) \<Rightarrow> (\<lparr>code = 500, body = PlainText err\<rparr>, w\<lparr>storage := s2\<rparr>)
              | (Inr chunks, s2) \<Rightarrow>
                  (\<lparr>code = 200,
                    body = EventsJSON \<lparr>ev_Status = meta_Status meta, ev_Chunks = chunks\<rparr>\<rparr>,
                   w\<lparr>storage := s2\<rparr>)))"

definition Server_GetStatus :: "Worker \<Rightarrow> string \<Rightarrow> response \<times> Worker" where
  "Server_GetStatus w jobID =
     (case GetJobMeta (storage w) jobID of
        (Inl err, s1) \<Rightarrow> (\<lparr>code = 404, body = PlainText ''job not found''\<rparr>, w\<lparr>storage := s1\<rparr>)
      | (Inr meta, s1) \<Rightarrow>
          (\<lparr>code = 200,
            body = StatusJSON \<lparr>st_Status = meta_Status meta, st_CreatedAt = meta_CreatedAt meta,
                               st_CompletedAt = meta_CompletedAt meta,
                               st_Error = meta_Error meta\<rparr>\<rparr>,
           w\<lparr>storage := s1\<rparr>))"

definition Server_CancelJob :: "Worker \<Rightarrow> string \<Rightarrow> string \<Rightarrow> response \<times> Worker" where
  "Server_CancelJob w jobID now =
     (let w1 = Cancel w jobID
      in case UpdateJobStatus (storage w1) jobID StatusCancelled now [] of
           (Some err, s2) \<Rightarrow> (\<lparr>code = 500, body = PlainText err\<rparr>, w1\<lparr>storage := s2\<rparr>)
         | (None, s2) \<Rightarrow> (\<lparr>code = 200, body = NoBody\<rparr>, w1\<lparr>storage := s2\<rparr>))"

section \<open>The executor: \<open>processJob\<close>\<close>

text \<open>
  The inference backend is the environment of \<open>processJob\<close>. \<open>upstream\<close> is what
  it does for one job: the request cannot be built or sent (the three early
  returns before the response), or a response with its status code, what the
  scanner delivers, and the value of \<open>scanner.Err()\<close> when the loop is left.
  The scanner delivers lines; between two lines other goroutines run, and the one
  that matters to the loop is the cancel handler, so a delivery is either a
  \<open>Line\<close> or a \<open>CancelCall jobID now\<close>, a complete run of \<open>Server_CancelJob\<close> that
  happens while the executor waits for the next line. \<open>dec\<close> is \<open>json.Unmarshal\<close>
  into \<open>OllamaStreamResponse\<close>, \<open>now\<close> the clock when the job ends.
\<close>

datatype scan_event = Line string | CancelCall string string

datatype upstream =
    MarshalError string
  | RequestError string
  | DoError string
  | Resp int "scan_event list" "string option"

datatype loop = Continue Worker string | Break Worker | Return Worker

definition scanStep ::
  "(string \<Rightarrow> string + OllamaStreamResponse) \<Rightarrow> string \<Rightarrow> Worker \<Rightarrow> string \<Rightarrow> string \<Rightarrow> string \<Rightarrow> loop" where
  \<comment> \<open>the body of \<open>for scanner.Scan()\<close> on the line \<open>text\<close>, \<open>finishReason\<close> being
      the variable of that name\<close>
  "scanStep dec now w jobID finishReason text =
     (if isCancelled w jobID then Return (finishJobWithError w jobID ''cancelled'' now)
      else
        (let line = TrimSpace text
         in if line = [] \<or> \<not> HasPrefix line ''data:'' then Continue w finishReason
            else
              (let payload = TrimSpace (TrimPrefix line ''data:'')
               in if payload = [] \<or> payload = ''[DONE]'' then Break w
                  else
                    (case dec payload of
                       Inl err \<Rightarrow>
                         Return (finishJobWithError w jobID (''decode error: '' @ err) now)
                     | Inr streamResp \<Rightarrow>
                         (case IncrSeq (storage w) jobID of
                            (Inl err, s1) \<Rightarrow> Continue (w\<lparr>storage := s1\<rparr>) finishReason
                          | (Inr seq, s1) \<Rightarrow>
                              (let finishReason' =
                                     (if rec_Done streamResp \<and> rec_DoneReason streamResp = ''length''
                                      then ''length'' else finishReason);
                                   chunk = \<lparr>Seq = seq, Delta = msg_Content streamResp,
                                            Done = rec_Done streamResp,
                                            FinishReason =
                                              (if rec_Done streamResp then finishReason' else []),
                                            Error = []\<rparr>;
                                   (e2, s2) = AddChunk s1 jobID chunk
                               in if rec_Done streamResp then Break (w\<lparr>storage := s2\<rparr>)
                                  else Continue (w\<lparr>storage := s2\<rparr>) finishReason'))))))"

fun scanLoop ::
  "(string \<Rightarrow> string + OllamaStreamResponse) \<Rightarrow> string \<Rightarrow> Worker \<Rightarrow> string \<Rightarrow> string \<Rightarrow> scan_event list
     \<Rightarrow> Worker \<times> bool" where
  \<comment> \<open>the loop; the flag says that \<open>processJob\<close> returned from inside it\<close>
  "scanLoop dec now w jobID finishReason [] = (w, False)"
| "scanLoop dec now w jobID finishReason (CancelCall j t # es) =
     scanLoop dec now (snd (Server_CancelJob w j t)) jobID finishReason es"
| "scanLoop dec now w jobID finishReason (Line text # es) =
     (case scanStep dec now w jobID finishReason text of
        Continue w' finishReason' \<Rightarrow> scanLoop dec now w' jobID finishReason' es
      | Break w' \<Rightarrow> (w', False)
      | Return w' \<Rightarrow> (w', True))"

definition processJob ::
  "(string \<Rightarrow> string + OllamaStreamResponse) \<Rightarrow> string \<Rightarrow> Worker \<Rightarrow> string \<Rightarrow> upstream \<Rightarrow> Worker" where
  "processJob dec now w jobID up =
     (case GetJobMeta (storage w) jobID of
        (Inl err, s1) \<Rightarrow> w\<lparr>storage := s1\<rparr>
      | (Inr meta, s1) \<Rightarrow>
          (case UpdateJobStatus s1 jobID StatusRunning [] [] of
             (Some err, s2) \<Rightarrow> w\<lparr>storage := s2\<rparr>
           | (None, s2) \<Rightarrow>
               (let (messages, s3) = HGet s2 jobID ''messages'';
                    (options, s4) = HGet s3 jobID ''options'';
                    w4 = w\<lparr>storage := s4\<rparr>
                in case up of
                     MarshalError err \<Rightarrow>
                       finishJobWithError w4 jobID (''marshal error: '' @ err) now
                   | RequestError err \<Rightarrow>
                       finishJobWithError w4 jobID (''create request error: '' @ err) now
                   | DoError err \<Rightarrow>
                       finishJobWithError w4 jobID (''ollama request error: '' @ err) now
                   | Resp statusCode events scanErr \<Rightarrow>
                       (if statusCode \<noteq> 200
                        then finishJobWithError w4 jobID (''ollama status: '' @ itoa statusCode) now
                        else
                          (case scanLoop dec now w4 jobID ''stop'' events of
                             (w5, True) \<Rightarrow> w5
                           | (w5, False) \<Rightarrow>
                               (case scanErr of
                                  Some err \<Rightarrow>
                                    finishJobWithError w5 jobID (''stream error: '' @ err) now
                                | None \<Rightarrow>
                                    (let (e6, s6) = UpdateJobStatus (storage w5) jobID
                                                      StatusCompleted now [];
                                         (e7, s7) = SetTTL s6 jobID (24 * 3600)
                                     in w5\<lparr>storage := s7\<rparr>)))))))"

definition run_once ::
  "(string \<Rightarrow> string + OllamaStreamResponse) \<Rightarrow> string \<Rightarrow> Worker \<Rightarrow> upstream \<Rightarrow> Worker" where
  \<comment> \<open>one round of \<open>run\<close> by one executor, the other goroutines standing still:
      nothing to do on an empty queue\<close>
  "run_once dec now w up =
     (case queue w of
        [] \<Rightarrow> w
      | jobID # rest \<Rightarrow>
          run_end (processJob dec now (run_begin (w\<lparr>queue := rest\<rparr>)) jobID up))"

section \<open>Admission under interleaving\<close>

text \<open>
  \<open>Enqueue\<close> releases the mutex between its load check and its send, and \<open>run\<close>
  takes a job from the channel before it takes the mutex, so the goroutines
  interleave at these points. A state of the system is the Worker together with the
  calls of \<open>Enqueue\<close> in flight (past the check, or past the send) and the place of
  each of the \<open>concurrency\<close> executors in \<open>run\<close>; an action is one atomic part of
  one goroutine. \<open>step\<close> is \<open>None\<close> when the action cannot happen in the state
  (a receive on an empty channel blocks). \<open>processJob\<close> touches the storage only, so
  the round of an executor ends with \<open>run_end\<close> on the Worker as it is.
\<close>

datatype exec_state = Idle | Received string | Processing string

record sys =
  wk :: Worker
  passed :: "string list"
  sent :: "string list"
  execs :: "exec_state list"

datatype action =
    EnqCheck string
  | EnqSend string
  | EnqCount string
  | Recv nat
  | Begin nat
  | End nat

definition boot :: "Storage \<Rightarrow> int \<Rightarrow> sys" where
  "boot st n = \<lparr>wk = NewWorker st n, passed = [], sent = [], execs = replicate (nat n) Idle\<rparr>"

fun step :: "sys \<Rightarrow> action \<Rightarrow> sys option" where
  "step s (EnqCheck j) =
     (case Enqueue_check (wk s) of
        Some e \<Rightarrow> Some s
      | None \<Rightarrow> Some (s\<lparr>passed := j # passed s\<rparr>))"
| "step s (EnqSend j) =
     (if j \<in> set (passed s)
      then (case Enqueue_send (wk s) j of
              Some w' \<Rightarrow> Some (s\<lparr>wk := w', passed := remove1 j (passed s), sent := j # sent s\<rparr>)
            | None \<Rightarrow> Some (s\<lparr>passed := remove1 j (passed s)\<rparr>))
      else None)"
| "step s (EnqCount j) =
     (if j \<in> set (sent s)
      then Some (s\<lparr>wk := Enqueue_count (wk s), sent := remove1 j (sent s)\<rparr>)
      else None)"
| "step s (Recv i) =
     (if i < length (execs s) \<and> execs s ! i = Idle
      then (case queue (wk s) of
              [] \<Rightarrow> None
            | j # rest \<Rightarrow>
                Some (s\<lparr>wk := (wk s)\<lparr>queue := rest\<rparr>, execs := (execs s)[i := Received j]\<rparr>))
      else None)"
| "step s (Begin i) =
     (if i < length (execs s)
      then (case execs s ! i of
              Received j \<Rightarrow>
                Some (s\<lparr>wk := run_begin (wk s), execs := (execs s)[i := Processing j]\<rparr>)
            | _ \<Rightarrow> None)
      else None)"
| "step s (End i) =
     (if i < length (execs s)
      then (case execs s ! i of
              Processing j \<Rightarrow> Some (s\<lparr>wk := run_end (wk s), execs := (execs s)[i := Idle]\<rparr>)
            | _ \<Rightarrow> None)
      else None)"

fun exec :: "sys \<Rightarrow> action list \<Rightarrow> sys option" where
  "exec s [] = Some s"
| "exec s (a # as) = (case step s a of None \<Rightarrow> None | Some s' \<Rightarrow> exec s' as)"

section \<open>The Gateway (gateway/main.go)\<close>

record Config =
  BackendURL :: string
  PollIntervalMS :: int
  RetryBackoffInitMS :: int
  RetryBackoffMaxMS :: int
  JobTimeoutMS :: int
  APIKeyRequired :: bool
  APIKey :: string

definition validateAuth :: "Config \<Rightarrow> string \<Rightarrow> string option" where
  \<comment> \<open>\<open>authHeader\<close> is \<open>r.Header.Get("Authorization")\<close>, empty when the header is
      absent; the result is the error, \<open>None\<close> for \<open>nil\<close>\<close>
  "validateAuth cfg authHeader =
     (if \<not> APIKeyRequired cfg then None
      else if authHeader = [] then Some ''missing authorization header''
      else (let token = TrimPrefix authHeader ''Bearer ''
            in if token \<noteq> APIKey cfg then Some ''invalid api key'' else None))"

text \<open>
  The JSON objects the Gateway writes. A \<open>map[string]interface{}\<close> of strings is
  an association list. An SSE frame is kept as what it carries: the object of a
  \<open>data:\<close> frame, the message of an error frame, or the \<open>[DONE]\<close> terminator.
\<close>

record OpenAIChatChoice =
  ch_Index :: int
  ch_Message :: "(string \<times> string) list"
  ch_Delta :: "(string \<times> string) list"
  ch_FinishReason :: string

record OpenAIChatResponse =
  oa_ID :: string
  oa_Object :: string
  oa_Created :: int
  oa_Model :: string
  oa_Choices :: "OpenAIChatChoice list"

datatype sse = Data OpenAIChatResponse | SSEError string | SSEDone

datatype gw_response =
    JSONError string nat
  | EventStream "sse list" bool
  | Completion OpenAIChatResponse
  | StillPolling

text \<open>
  The Worker is the environment of a Gateway handler: \<open>create_outcome\<close> is the
  result of \<open>createBackendJob\<close>, and every round of the polling loop meets a
  \<open>poll\<close>: the context is done, \<open>pollBackendEvents\<close> fails, or it returns an
  events response. A handler that has used up the rounds given to it without
  returning is still polling (\<open>EventStream fs False\<close>, \<open>StillPolling\<close>). Sleeping
  and the retry delay change no output and are left out.
\<close>

datatype create_outcome = RateLimited string | CreateFailed string | Created string

datatype poll = CtxDone | PollFailed string | PollOK EventsResponse

definition chunkFrame :: "string \<Rightarrow> int \<Rightarrow> string \<Rightarrow> ChunkData \<Rightarrow> sse" where
  \<comment> \<open>the \<open>data:\<close> frame of one chunk\<close>
  "chunkFrame chatID created model chunk =
     (let delta0 = (if Delta chunk \<noteq> [] then [(''content'', Delta chunk)] else []);
          delta = (if Delta chunk = [] \<and> Done chunk
                   then AList.update ''content'' [] delta0 else delta0)
      in Data \<lparr>oa_ID = chatID, oa_Object = ''chat.completion.chunk'', oa_Created = created,
               oa_Model = model,
               oa_Choices = [\<lparr>ch_Index = 0, ch_Message = [], ch_Delta = delta,
                              ch_FinishReason = FinishReason chunk\<rparr>]\<rparr>)"

fun streamChunks ::
  "string \<Rightarrow> int \<Rightarrow> string \<Rightarrow> int \<Rightarrow> ChunkData list \<Rightarrow> sse list \<times> int \<times> bool" where
  \<comment> \<open>\<open>for _, chunk := range events.Chunks\<close> of \<open>handleStreamingChat\<close>: the frames
      written, the new \<open>lastSeq\<close>, and whether the handler returned\<close>
  "streamChunks chatID created model lastSeq [] = ([], lastSeq, False)"
| "streamChunks chatID created model lastSeq (chunk # rest) =
     (if Seq chunk \<le> lastSeq then streamChunks chatID created model lastSeq rest
      else if Error chunk \<noteq> [] then ([SSEError (Error chunk)], Seq chunk, True)
      else if Done chunk
        then ([chunkFrame chatID created model chunk, SSEDone], Seq chunk, True)
      else (case streamChunks chatID created model (Seq chunk) rest of
              (fs, l, r) \<Rightarrow> (chunkFrame chatID created model chunk # fs, l, r)))"

fun streamLoop :: "string \<Rightarrow> int \<Rightarrow> string \<Rightarrow> int \<Rightarrow> poll list \<Rightarrow> sse list \<times> bool" where
  "streamLoop chatID created model lastSeq [] = ([], False)"
| "streamLoop chatID created model lastSeq (CtxDone # ps) = ([SSEError ''timeout exceeded''], True)"
| "streamLoop chatID created model lastSeq (PollFailed e # ps) =
     streamLoop chatID created model lastSeq ps"
| "streamLoop chatID created model lastSeq (PollOK events # ps) =
     (case streamChunks chatID created model lastSeq (ev_Chunks events) of
        (fs, l, True) \<Rightarrow> (fs, True)
      | (fs, l, False) \<Rightarrow>
          (if ev_Status events = ''completed'' \<or> ev_Status events = ''failed''
              \<or> ev_Status events = ''cancelled''
           then (if ev_Status events \<noteq> ''completed''
                 then (fs @ [SSEError (''job '' @ ev_Status events)], True)
                 else (fs @ [SSEDone], True))
           else (case streamLoop chatID created model l ps of
                   (fs', r) \<Rightarrow> (fs @ fs', r))))"

definition handleStreamingChat ::
  "create_outcome \<Rightarrow> bool \<Rightarrow> string \<Rightarrow> int \<Rightarrow> string \<Rightarrow> poll list \<Rightarrow> gw_response" where
  \<comment> \<open>\<open>flusher\<close>: the response writer is an \<open>http.Flusher\<close>; \<open>chatID\<close> and \<open>created\<close>
      are the id and the clock drawn once per request, \<open>model\<close> is \<open>req.Model\<close>\<close>
  "handleStreamingChat create flusher chatID created model polls =
     (case create of
        RateLimited m \<Rightarrow> JSONError ''Service overloaded. Please try again later.'' 429
      | CreateFailed e \<Rightarrow> JSONError (''failed to create job: '' @ e) 500
      | Created jobID \<Rightarrow>
          (if \<not> flusher then JSONError ''streaming not supported'' 500
           else (case streamLoop chatID created model (- 1) polls of
                   (fs, r) \<Rightarrow> EventStream fs r)))"

fun aggChunks ::
  "int \<Rightarrow> string \<Rightarrow> string \<Rightarrow> ChunkData list \<Rightarrow> string + (int \<times> string \<times> string)" where
  \<comment> \<open>\<open>for _, chunk := range events.Chunks\<close> of \<open>handleNonStreamingChat\<close> on
      \<open>lastSeq\<close>, \<open>fullContent\<close> and \<open>finishReason\<close>: \<open>Inl\<close> is the error the
      handler returns with\<close>
  "aggChunks lastSeq fullContent finishReason [] = Inr (lastSeq, fullContent, finishReason)"
| "aggChunks lastSeq fullContent finishReason (chunk # rest) =
     (if Seq chunk \<le> lastSeq then aggChunks lastSeq fullContent finishReason rest
      else if Error chunk \<noteq> [] then Inl (Error chunk)
      else if Done chunk
        then Inr (Seq chunk, fullContent @ Delta chunk, FinishReason chunk)
      else aggChunks (Seq chunk) (fullContent @ Delta chunk) finishReason rest)"

fun aggLoop ::
  "string \<Rightarrow> int \<Rightarrow> string \<Rightarrow> int \<Rightarrow> string \<Rightarrow> string \<Rightarrow> poll list \<Rightarrow> gw_response" where
  "aggLoop chatID created model lastSeq fullContent finishReason [] = StillPolling"
| "aggLoop chatID created model lastSeq fullContent finishReason (CtxDone # ps) =
     JSONError ''timeout exceeded'' 504"
| "aggLoop chatID created model lastSeq fullContent finishReason (PollFailed e # ps) =
     aggLoop chatID created model lastSeq fullContent finishReason ps"
| "aggLoop chatID created model lastSeq fullContent finishReason (PollOK events # ps) =
     (case aggChunks lastSeq fullContent finishReason (ev_Chunks events) of
        Inl err \<Rightarrow> JSONError err 500
      | Inr (lastSeq', fullContent', finishReason') \<Rightarrow>
          (if ev_Status events = ''completed''
           then Completion
                  \<lparr>oa_ID = chatID, oa_Object = ''chat.completion'', oa_Created = created,
                   oa_Model = model,
                   oa_Choices = [\<lparr>ch_Index = 0,
                                  ch_Message = [(''role'', ''assistant''),
                                                (''content'', fullContent')],
                                  ch_Delta = [],
                                  ch_FinishReason = finishReason'\<rparr>]\<rparr>
           else if ev_Status events = ''failed'' \<or> ev_Status events = ''cancelled''
           then JSONError (''job '' @ ev_Status events) 500
           else aggLoop chatID created model lastSeq' fullContent' finishReason' ps))"

definition handleNonStreamingChat ::
  "create_outcome \<Rightarrow> string \<Rightarrow> int \<Rightarrow> string \<Rightarrow> poll list \<Rightarrow> gw_response" where
  \<comment> \<open>\<open>chatID\<close> and \<open>created\<close> are drawn when the envelope is written\<close>
  "handleNonStreamingChat create chatID created model polls =
     (case create of
        RateLimited m \<Rightarrow> JSONError ''Service overloaded. Please try again later.'' 429
      | CreateFailed e \<Rightarrow> JSONError (''failed to create job: '' @ e) 500
      | Created jobID \<Rightarrow> aggLoop chatID created model (- 1) [] [] polls)"

definition pollBackendEvents :: "Worker \<Rightarrow> string \<Rightarrow> int \<Rightarrow> poll" where
  \<comment> \<open>a poll that reaches the Worker \<open>w\<close>: \<open>GET /jobs/ID/events?from_seq=lastSeq\<close>
      answered by \<open>Server_GetEvents\<close>\<close>
  "pollBackendEvents w jobID lastSeq =
     (case fst (Server_GetEvents w jobID (itoa lastSeq)) of r \<Rightarrow>
        (if code r \<noteq> 200 then PollFailed (''backend status: '' @ itoa (int (code r)))
         else (case body r of
                 EventsJSON ev \<Rightarrow> PollOK ev
               | _ \<Rightarrow> PollFailed ''decode'')))"

section \<open>Vocabulary of the properties\<close>

definition ok_for :: "nat \<Rightarrow> Storage \<Rightarrow> bool" where
  \<comment> \<open>the next \<open>n\<close> Redis commands succeed\<close>
  "ok_for n s = list_all (\<lambda>f. f = None) (take n (faults s))"

definition emptyStorage :: "string option list \<Rightarrow> Storage" where
  \<comment> \<open>a fresh Redis with the fault schedule \<open>fs\<close>\<close>
  "emptyStorage fs =
     \<lparr>metas = (\<lambda>_. []), chunkLists = (\<lambda>_. []), seqs = (\<lambda>_. 0), ttl_meta = (\<lambda>_. None),
      ttl_chunks = (\<lambda>_. None), ttl_seq = (\<lambda>_. None), faults = fs\<rparr>"

definition overloadMessage :: "Worker \<Rightarrow> string" where
  \<comment> \<open>the error of \<open>Enqueue\<close> on a Worker at its ceiling\<close>
  "overloadMessage w = ''queue full: active='' @ itoa (activeJobs w) @ '', queued=''
      @ itoa (int (length (queue w))) @ '', max='' @ itoa (maxQueueSize w)"

definition req0 :: JobRequest where
  "req0 = \<lparr>req_Model = ''gpt-oss:20b'', req_Messages = [], req_Prompt = [], req_Options = []\<rparr>"

definition w_full :: Worker where
  \<comment> \<open>concurrency 1, two jobs accepted and none taken up yet\<close>
  "w_full =
     snd (Server_CreateJob
            (snd (Server_CreateJob (NewWorker (emptyStorage []) 1) (Inr req0) ''a'' ''t0''))
            (Inr req0) ''b'' ''t1'')"

definition authConfig :: "string \<Rightarrow> Config" where
  \<comment> \<open>the default configuration with bearer auth enforced and the key \<open>k\<close>\<close>
  "authConfig k =
     \<lparr>BackendURL = ''http://localhost:5345'', PollIntervalMS = 500, RetryBackoffInitMS = 1000,
      RetryBackoffMaxMS = 30000, JobTimeoutMS = 1800000, APIKeyRequired = True, APIKey = k\<rparr>"

definition mkRecord :: "string \<Rightarrow> bool \<Rightarrow> string \<Rightarrow> OllamaStreamResponse" where
  "mkRecord c d r = \<lparr>msg_Content = c, rec_Done = d, rec_DoneReason = r\<rparr>"

definition dec0 :: "string \<Rightarrow> string + OllamaStreamResponse" where
  \<comment> \<open>a decoder for the records of the scenarios, written as the spec writes them\<close>
  "dec0 p =
     (if p = ''{content:Hel,done:false}'' then Inr (mkRecord ''Hel'' False [])
      else if p = ''{content:lo,done:false}'' then Inr (mkRecord ''lo'' False [])
      else if p = ''{content:,done:true,done_reason:stop}'' then Inr (mkRecord [] True ''stop'')
      else if p = ''{content:A,done:true,done_reason:length}'' then Inr (mkRecord ''A'' True ''length'')
      else Inl ''invalid character'')"

definition hello :: upstream where
  \<comment> \<open>the backend of scenario S1\<close>
  "hello = Resp 200 [Line ''data: {content:Hel,done:false}'', Line [],
                     Line ''data: {content:lo,done:false}'', Line [],
                     Line ''data: {content:,done:true,done_reason:stop}'', Line [],
                     Line ''data: [DONE]''] None"

definition w_hello :: Worker where
  \<comment> \<open>one job created and run to its end against that backend\<close>
  "w_hello = run_once dec0 ''t1''
               (snd (Server_CreateJob (NewWorker (emptyStorage []) 1) (Inr req0) ''j'' ''t0''))
               hello"

definition fromSeqOf :: "string \<Rightarrow> int" where
  \<comment> \<open>the \<open>fromSeq\<close> that \<open>Server_GetEvents\<close> computes from the query parameter\<close>
  "fromSeqOf seqStr = (case Atoi seqStr of Some seq \<Rightarrow> seq | None \<Rightarrow> - 1)"

definition chunkOf :: "OllamaStreamResponse \<Rightarrow> int \<Rightarrow> ChunkData" where
  \<comment> \<open>the chunk of a record according to the specification: the record's delta text
      and done flag, and on a done record the finish reason \<open>length\<close> if the backend
      said so and \<open>stop\<close> otherwise\<close>
  "chunkOf r n =
     \<lparr>Seq = n, Delta = msg_Content r, Done = rec_Done r,
      FinishReason = (if rec_Done r
                      then (if rec_DoneReason r = ''length'' then ''length'' else ''stop'')
                      else []),
      Error = []\<rparr>"

definition payloadOf :: "string \<Rightarrow> string" where
  \<comment> \<open>what follows \<open>data:\<close> on a line\<close>
  "payloadOf text = TrimSpace (TrimPrefix (TrimSpace text) ''data:'')"

definition isRecordLine :: "string \<Rightarrow> bool" where
  \<comment> \<open>a \<open>data:\<close> line that is not the end marker\<close>
  "isRecordLine text =
     (TrimSpace text \<noteq> [] \<and> HasPrefix (TrimSpace text) ''data:'' \<and>
      payloadOf text \<noteq> [] \<and> payloadOf text \<noteq> ''[DONE]'')"

definition errorChunk :: "int \<Rightarrow> string \<Rightarrow> ChunkData" where
  \<comment> \<open>the terminal chunk of \<open>finishJobWithError\<close>\<close>
  "errorChunk n msg = \<lparr>Seq = n, Delta = [], Done = True, FinishReason = ''error'', Error = msg\<rparr>"

fun workerOf :: "loop \<Rightarrow> Worker" where
  "workerOf (Continue w fr) = w"
| "workerOf (Break w) = w"
| "workerOf (Return w) = w"

fun linesOf :: "upstream \<Rightarrow> string set" where
  \<comment> \<open>the lines the scanner delivers\<close>
  "linesOf (Resp statusCode events scanErr) = {text. Line text \<in> set events}"
| "linesOf up = {}"

definition translated :: "(string \<Rightarrow> string + OllamaStreamResponse) \<Rightarrow> string set \<Rightarrow> ChunkData \<Rightarrow> bool" where
  \<comment> \<open>\<open>c\<close> is the terminal chunk of an error, or the chunk the specification gives
      to a record on one of the lines\<close>
  "translated dec lines c =
     ((\<exists>msg. msg \<noteq> [] \<and> c = errorChunk (Seq c) msg) \<or>
      (\<exists>text r. text \<in> lines \<and> isRecordLine text \<and> dec (payloadOf text) = Inr r \<and>
                c = chunkOf r (Seq c)))"

definition grows :: "(ChunkData \<Rightarrow> bool) \<Rightarrow> string \<Rightarrow> Storage \<Rightarrow> Storage \<Rightarrow> bool" where
  \<comment> \<open>from \<open>s\<close> to \<open>s'\<close> the log of job \<open>j\<close> has only been appended to, by chunks
      that satisfy \<open>P\<close>\<close>
  "grows P j s s' = (\<exists>new. chunkLists s' j = chunkLists s j @ new \<and> list_all P new)"

definition w_queued :: Worker where
  \<comment> \<open>concurrency 1 and one job created\<close>
  "w_queued = snd (Server_CreateJob (NewWorker (emptyStorage []) 1) (Inr req0) ''j'' ''t0'')"

definition dense :: "Storage \<Rightarrow> bool" where
  \<comment> \<open>every log holds, in order, the sequence numbers from 1 to the job's counter\<close>
  "dense s = (\<forall>j. 0 \<le> seqs s j \<and> map Seq (chunkLists s j) = [1..seqs s j])"

definition sound :: "Storage \<Rightarrow> bool" where
  \<comment> \<open>no Redis command is going to fail, and the logs are dense\<close>
  "sound s = (faults s = [] \<and> dense s)"

text \<open>
  The states of a Worker. It boots on an empty Redis with the fault schedule \<open>fs\<close>
  and concurrency \<open>n\<close>; then requests are handled and jobs are executed, in any
  order and any number. A job is executed by \<open>run_once\<close>, on any backend and with
  any cancel calls in between, or observed in the middle: after any round of the
  scanner loop (\<open>scan\<close>) and after any \<open>finishJobWithError\<close> (\<open>fail\<close>), which lets
  any executor be at any point of any job at any time.
\<close>

inductive reachable :: "string option list \<Rightarrow> int \<Rightarrow> Worker \<Rightarrow> bool" for fs :: "string option list" and n :: int where
  boot: "reachable fs n (NewWorker (emptyStorage fs) n)"
| create: "reachable fs n w \<Longrightarrow> reachable fs n (snd (Server_CreateJob w reqBody jobID now))"
| events: "reachable fs n w \<Longrightarrow> reachable fs n (snd (Server_GetEvents w jobID seqStr))"
| status: "reachable fs n w \<Longrightarrow> reachable fs n (snd (Server_GetStatus w jobID))"
| cancel: "reachable fs n w \<Longrightarrow> reachable fs n (snd (Server_CancelJob w jobID now))"
| run: "reachable fs n w \<Longrightarrow> reachable fs n (run_once dec now w up)"
| scan: "reachable fs n w \<Longrightarrow>
         reachable fs n (workerOf (scanStep dec now w jobID finishReason ln))"
| fail: "reachable fs n w \<Longrightarrow> reachable fs n (finishJobWithError w jobID errorMsg now)"

definition fs_gap :: "string option list" where
  \<comment> \<open>Redis fails once, on its ninth command\<close>
  "fs_gap = [None, None, None, None, None, None, None, None, Some ''i/o timeout'']"

definition w_gap :: Worker where
  \<comment> \<open>scenario S1 on that Redis: the ninth command is the \<open>AddChunk\<close> of the second
      record\<close>
  "w_gap = run_once dec0 ''t1''
             (snd (Server_CreateJob (NewWorker (emptyStorage fs_gap) 1) (Inr req0) ''j'' ''t0''))
             hello"

definition cancelMidStream :: upstream where
  \<comment> \<open>the backend of scenario S4: the cancel endpoint is called for job \<open>j\<close> after
      the first record\<close>
  "cancelMidStream =
     Resp 200 [Line ''data: {content:Hel,done:false}'', CancelCall ''j'' ''t1'',
               Line ''data: {content:lo,done:false}'',
               Line ''data: {content:,done:true,done_reason:stop}''] None"

definition w_s4 :: Worker where
  "w_s4 = run_once dec0 ''t2'' w_queued cancelMidStream"

definition raceTrace :: "action list" where
  \<comment> \<open>three create-job requests \<open>a\<close>, \<open>b\<close>, \<open>c\<close> against one executor, which has
      taken \<open>a\<close> from the channel and reaches its \<open>activeJobs++\<close> only after \<open>b\<close> and
      \<open>c\<close> have been admitted\<close>
  "raceTrace =
     [EnqCheck ''a'', EnqSend ''a'', Recv 0, EnqCount ''a'',
      EnqCheck ''b'', EnqSend ''b'', EnqCount ''b'',
      EnqCheck ''c'', EnqSend ''c'', EnqCount ''c'',
      Begin 0]"

definition counters :: "sys \<Rightarrow> int \<times> int \<times> int \<times> int" where
  \<comment> \<open>\<open>activeJobs\<close>, the length of the channel, the \<open>queuedJobs\<close> counter and the
      ceiling\<close>
  "counters s =
     (activeJobs (wk s), int (length (queue (wk s))), queuedJobs (wk s), maxQueueSize (wk s))"

definition busy :: "exec_state list \<Rightarrow> nat" where
  \<comment> \<open>the executors inside \<open>processJob\<close>\<close>
  "busy es = length (filter (\<lambda>e. case e of Processing j \<Rightarrow> True | _ \<Rightarrow> False) es)"

definition admitted :: "int \<Rightarrow> sys \<Rightarrow> bool" where
  \<comment> \<open>what every state of the system satisfies\<close>
  "admitted n s =
     (length (execs s) = nat n \<and> maxQueueSize (wk s) = n * 2 \<and>
      activeJobs (wk s) = int (busy (execs s)) \<and>
      int (length (queue (wk s))) \<le> max 0 (n * 2))"

fun framesOnce :: "string \<Rightarrow> int \<Rightarrow> string \<Rightarrow> ChunkData list \<Rightarrow> sse list" where
  \<comment> \<open>the specification's translation of chunks fed once each, in order, with no
      cursor: an error chunk gives the error frame and ends the stream, any other
      chunk gives its data frame, and a done chunk gives \<open>[DONE]\<close> after it and ends
      the stream\<close>
  "framesOnce chatID created model [] = []"
| "framesOnce chatID created model (chunk # rest) =
     (if Error chunk \<noteq> [] then [SSEError (Error chunk)]
      else if Done chunk then [chunkFrame chatID created model chunk, SSEDone]
      else chunkFrame chatID created model chunk # framesOnce chatID created model rest)"

definition helloChunks :: "ChunkData list" where
  \<comment> \<open>the log of scenario S1\<close>
  "helloChunks =
     [\<lparr>Seq = 1, Delta = ''Hel'', Done = False, FinishReason = [], Error = []\<rparr>,
      \<lparr>Seq = 2, Delta = ''lo'', Done = False, FinishReason = [], Error = []\<rparr>,
      \<lparr>Seq = 3, Delta = [], Done = True, FinishReason = ''stop'', Error = []\<rparr>]"

definition longAnswer :: upstream where
  \<comment> \<open>a backend that emits 1001 content records and then the done record\<close>
  "longAnswer =
     Resp 200 (replicate 1001 (Line ''data: {content:lo,done:false}'')
               @ [Line ''data: {content:,done:true,done_reason:stop}'']) None"

definition w_long :: Worker where
  \<comment> \<open>one job created and run to its end against that backend\<close>
  "w_long = run_once dec0 ''t1'' w_queued longAnswer"

definition admission :: "Worker \<Rightarrow> int \<times> int \<times> int \<times> string list \<times> int" where
  \<comment> \<open>the fields of the Worker that admission reads and writes\<close>
  "admission w = (concurrency w, maxQueueSize w, activeJobs w, queue w, queuedJobs w)"

section \<open>Facts about the storage\<close>

lemma rdb_ok: "ok_for (Suc n) s \<Longrightarrow> rdb s = (None, s\<lparr>faults := tl (faults s)\<rparr>)"
  by (cases "faults s") (auto simp: ok_for_def rdb_def)

lemma ok_for_tl: "ok_for (Suc n) s \<Longrightarrow> ok_for n (s\<lparr>faults := tl (faults s)\<rparr>)"
  by (cases "faults s") (auto simp: ok_for_def)

lemma ok_for_mono: "m \<le> n \<Longrightarrow> ok_for n s \<Longrightarrow> ok_for m s"
  using set_take_subset_set_take [of m n "faults s"]
  by (auto simp: ok_for_def list_all_iff)

lemma ok_for_empty [simp]: "ok_for n (emptyStorage [])"
  by (simp add: ok_for_def emptyStorage_def)

lemma map_of_hset: "map_of (hset h fvs) = map_of h ++ map_of (rev fvs)"
  unfolding hset_def
  by (induction fvs arbitrary: h)
     (auto simp: update_conv' fun_eq_iff map_add_def split: option.splits)

lemma hset_nonempty: "fvs \<noteq> [] \<Longrightarrow> hset h fvs \<noteq> []"
proof -
  assume "fvs \<noteq> []"
  then have "map_of (hset h fvs) \<noteq> Map.empty"
    by (cases fvs rule: rev_cases) (auto simp: map_of_hset)
  then show ?thesis by auto
qed

lemma HSet_ok:
  "ok_for (Suc n) s \<Longrightarrow>
   HSet s j fvs =
     (None, s\<lparr>faults := tl (faults s), metas := (metas s)(j := hset (metas s j) fvs)\<rparr>)"
  by (simp add: HSet_def rdb_ok)

lemma GetJobMeta_ok:
  "ok_for (Suc n) s \<Longrightarrow> metas s j \<noteq> [] \<Longrightarrow>
   GetJobMeta s j = (Inr \<lparr>meta_Status = hget (metas s j) ''status'',
                         meta_Model = hget (metas s j) ''model'',
                         meta_CreatedAt = hget (metas s j) ''created_at'',
                         meta_CompletedAt = hget (metas s j) ''completed_at'',
                         meta_Error = hget (metas s j) ''error''\<rparr>, s\<lparr>faults := tl (faults s)\<rparr>)"
  by (simp add: GetJobMeta_def rdb_ok Let_def)

lemma GetJobMeta_missing:
  "ok_for (Suc n) s \<Longrightarrow> metas s j = [] \<Longrightarrow>
   GetJobMeta s j = (Inl ''job not found'', s\<lparr>faults := tl (faults s)\<rparr>)"
  by (simp add: GetJobMeta_def rdb_ok Let_def)

lemma hget_status_update:
  "hget (hset h ([(''status'', v)] @ (if a \<noteq> [] then [(''completed_at'', a)] else [])
        @ (if e \<noteq> [] then [(''error'', e)] else []))) ''status'' = v"
  by (simp add: hget_def map_of_hset map_add_def)

lemma rdb_nofault: "faults s = [] \<Longrightarrow> rdb s = (None, s)"
  by (simp add: rdb_def)

lemma HSet_nofault:
  "faults s = [] \<Longrightarrow> HSet s j fvs = (None, s\<lparr>metas := (metas s)(j := hset (metas s j) fvs)\<rparr>)"
  by (simp add: HSet_def rdb_nofault)

section \<open>The cancel endpoint\<close>

text \<open>
  C10. For every job id, also one no job was created under, \<open>POST /jobs/ID/cancel\<close>
  answers 200 and writes the status \<open>cancelled\<close> into the job's metadata hash,
  creating the hash when it was absent: the status endpoint then answers 200 with
  status \<open>cancelled\<close>, where for an unknown id it answered 404 before. The two Redis
  commands involved (the \<open>HSET\<close> of the cancel, the \<open>HGETALL\<close> of the status) are
  taken to succeed.
\<close>

theorem CancelJob_any_id:
  assumes "ok_for 2 (storage w)"
  shows "(case Server_CancelJob w jobID now of
            (r, w') \<Rightarrow>
              r = \<lparr>code = 200, body = NoBody\<rparr> \<and>
              metas (storage w') jobID \<noteq> [] \<and>
              hget (metas (storage w') jobID) ''status'' = StatusCancelled \<and>
              (\<exists>st. fst (Server_GetStatus w' jobID) = \<lparr>code = 200, body = StatusJSON st\<rparr> \<and>
                    st_Status st = StatusCancelled)) \<and>
         (metas (storage w) jobID = [] \<longrightarrow> code (fst (Server_GetStatus w jobID)) = 404)"
proof -
  let ?s = "storage w"
  let ?fvs = "[(''status'', StatusCancelled)]
        @ (if now \<noteq> [] then [(''completed_at'', now)] else [])
        @ (if ([]::string) \<noteq> [] then [(''error'', [])] else [])"
  let ?s2 = "?s\<lparr>faults := tl (faults ?s),
                 metas := (metas ?s)(jobID := hset (metas ?s jobID) ?fvs)\<rparr>"
  have ok2: "ok_for (Suc (Suc 0)) ?s" using assms by (simp add: numeral_2_eq_2)
  have ok1: "ok_for (Suc 0) ?s" using ok2 by (rule ok_for_mono [rotated]) simp
  have upd: "UpdateJobStatus ?s jobID StatusCancelled now [] = (None, ?s2)"
    unfolding UpdateJobStatus_def using HSet_ok [OF ok2] by simp
  have cancel: "Server_CancelJob w jobID now =
      (\<lparr>code = 200, body = NoBody\<rparr>, (Cancel w jobID)\<lparr>storage := ?s2\<rparr>)"
    using upd by (simp add: Server_CancelJob_def Cancel_def)
  have ne: "metas ?s2 jobID \<noteq> []"
    by (simp add: hset_nonempty)
  have st: "hget (metas ?s2 jobID) ''status'' = StatusCancelled"
    using hget_status_update [of "metas ?s jobID" StatusCancelled now "[]"] by simp
  have ok': "ok_for (Suc 0) ?s2"
    using ok_for_tl [OF ok2] by (simp add: ok_for_def)
  have get: "\<exists>st. fst (Server_GetStatus ((Cancel w jobID)\<lparr>storage := ?s2\<rparr>) jobID)
                 = \<lparr>code = 200, body = StatusJSON st\<rparr> \<and> st_Status st = StatusCancelled"
    using GetJobMeta_ok [OF ok' ne] st by (simp add: Server_GetStatus_def)
  have missing: "metas ?s jobID = [] \<longrightarrow> code (fst (Server_GetStatus w jobID)) = 404"
    using GetJobMeta_missing [OF ok1] by (simp add: Server_GetStatus_def)
  show ?thesis
    unfolding cancel using ne st get missing by simp
qed

theorem CancelJob_any_id_witness:
  "ok_for 2 (storage (NewWorker (emptyStorage []) 1)) \<and>
   metas (storage (NewWorker (emptyStorage []) 1)) ''ghost'' = [] \<and>
   fst (Server_CancelJob (NewWorker (emptyStorage []) 1) ''ghost'' ''2025-01-01T00:00:00Z'')
     = \<lparr>code = 200, body = NoBody\<rparr> \<and>
   code (fst (Server_GetStatus (NewWorker (emptyStorage []) 1) ''ghost'')) = 404 \<and>
   (\<exists>st. fst (Server_GetStatus
              (snd (Server_CancelJob (NewWorker (emptyStorage []) 1) ''ghost''
                      ''2025-01-01T00:00:00Z''))
              ''ghost'') = \<lparr>code = 200, body = StatusJSON st\<rparr> \<and>
         st_Status st = StatusCancelled)"
  using CancelJob_any_id [of "NewWorker (emptyStorage []) 1" "''ghost''" "''2025-01-01T00:00:00Z''"]
  by (simp add: NewWorker_def emptyStorage_def ok_for_def split: prod.splits)

section \<open>Admission at the create endpoint\<close>

lemma w_full_eq:
  "w_full = \<lparr>storage = (emptyStorage [])\<lparr>metas := (\<lambda>_. [])
                 (''a'' := [(''status'', ''queued''), (''model'', ''gpt-oss:20b''), (''created_at'', ''t0'')],
                  ''b'' := [(''status'', ''queued''), (''model'', ''gpt-oss:20b''), (''created_at'', ''t1'')])\<rparr>,
             concurrency = 1, maxQueueSize = 2, queue = [''a'', ''b''],
             cancelled = (\<lambda>_. False), activeJobs = 0, queuedJobs = 2\<rparr>"
  by (simp add: w_full_def Server_CreateJob_def Storage_CreateJob_def HSet_nofault NewWorker_def
      emptyStorage_def req0_def Enqueue_def Enqueue_check_def Enqueue_send_def Enqueue_count_def
      Let_def StatusQueued_def hset_def)

text \<open>
  C2, as stated: a create-job request that arrives when \<open>active + queued \<ge> 2N\<close> is
  rejected with the overload signal and leaves the chunk store unchanged, no
  metadata being written for it. It is false. With concurrency 1 and two jobs
  queued, a third request is answered 429, but \<open>Server_CreateJob\<close> has written the
  job's metadata before it called \<open>Enqueue\<close>, and on the rejection it updates that
  metadata to status \<open>failed\<close>.
\<close>

theorem CreateJob_overload_counterexample:
  "maxQueueSize w_full \<le> activeJobs w_full + int (length (queue w_full)) \<and>
   metas (storage w_full) ''c'' = [] \<and>
   code (fst (Server_CreateJob w_full (Inr req0) ''c'' ''t2'')) = 429 \<and>
   metas (storage (snd (Server_CreateJob w_full (Inr req0) ''c'' ''t2''))) ''c'' =
     [(''status'', ''failed''), (''model'', ''gpt-oss:20b''), (''created_at'', ''t2''),
      (''completed_at'', ''t2''), (''error'', ''queue full: active=0, queued=2, max=2'')] \<and>
   storage (snd (Server_CreateJob w_full (Inr req0) ''c'' ''t2'')) \<noteq> storage w_full"
proof -
  have a: "metas (storage (snd (Server_CreateJob w_full (Inr req0) ''c'' ''t2''))) ''c'' =
     [(''status'', ''failed''), (''model'', ''gpt-oss:20b''), (''created_at'', ''t2''),
      (''completed_at'', ''t2''), (''error'', ''queue full: active=0, queued=2, max=2'')]"
    by (simp add: w_full_eq Server_CreateJob_def Storage_CreateJob_def HSet_nofault
      emptyStorage_def req0_def Enqueue_def Enqueue_check_def UpdateJobStatus_def
      Let_def StatusQueued_def StatusFailed_def hset_def itoa_def digits.simps)
  have b: "metas (storage w_full) ''c'' = []"
    by (simp add: w_full_eq emptyStorage_def)
  have c: "code (fst (Server_CreateJob w_full (Inr req0) ''c'' ''t2'')) = 429"
    by (simp add: w_full_eq Server_CreateJob_def Storage_CreateJob_def HSet_nofault
      emptyStorage_def req0_def Enqueue_def Enqueue_check_def UpdateJobStatus_def
      Let_def split: prod.splits)
  have d: "storage (snd (Server_CreateJob w_full (Inr req0) ''c'' ''t2'')) \<noteq> storage w_full"
    using a b by (metis list.distinct(1))
  show ?thesis using a b c d by (simp add: w_full_eq)
qed

text \<open>
  C2, amended: a well-formed create-job request that arrives when
  \<open>active + queued \<ge> maxQueueSize\<close> (and whose Redis commands succeed) is answered
  429 with code \<open>rate_limit_exceeded\<close> and is not queued: the queue, the counters,
  the chunk logs, the sequence counters and the metadata of every other job are as
  before. Its own metadata has been written and is left with status \<open>failed\<close> and
  the rejection message as error.
\<close>

theorem CreateJob_overload:
  assumes full: "maxQueueSize w \<le> activeJobs w + int (length (queue w))"
    and ok: "faults (storage w) = []"
  shows "(case Server_CreateJob w (Inr req) jobID now of
            (r, w') \<Rightarrow>
              r = \<lparr>code = 429,
                   body = ErrorEnvelope (''Service overloaded: '' @ overloadMessage w)
                            ''server_error'' ''rate_limit_exceeded''\<rparr> \<and>
              queue w' = queue w \<and> activeJobs w' = activeJobs w \<and>
              queuedJobs w' = queuedJobs w \<and>
              chunkLists (storage w') = chunkLists (storage w) \<and>
              seqs (storage w') = seqs (storage w) \<and>
              metas (storage w') jobID \<noteq> [] \<and>
              hget (metas (storage w') jobID) ''status'' = StatusFailed \<and>
              hget (metas (storage w') jobID) ''error'' = overloadMessage w \<and>
              (\<forall>j. j \<noteq> jobID \<longrightarrow> metas (storage w') j = metas (storage w) j))"
proof -
  have msg: "Enqueue_check (w\<lparr>storage := s\<rparr>) = Some (overloadMessage w)" for s
    using full by (simp add: Enqueue_check_def Let_def overloadMessage_def)
  have enq: "Enqueue (w\<lparr>storage := s\<rparr>) jobID = (Some (overloadMessage w), w\<lparr>storage := s\<rparr>)" for s
    using msg [of s] by (simp add: Enqueue_def)
  have ne: "overloadMessage w \<noteq> []"
    by (simp add: overloadMessage_def)
  show ?thesis
    using ok ne
    by (simp add: Server_CreateJob_def Storage_CreateJob_def UpdateJobStatus_def HSet_nofault enq
        Let_def hset_nonempty hget_def map_of_hset map_add_def StatusFailed_def split: prod.splits)
qed


theorem CreateJob_overload_witness:
  "maxQueueSize w_full \<le> activeJobs w_full + int (length (queue w_full)) \<and>
   faults (storage w_full) = [] \<and>
   fst (Server_CreateJob w_full (Inr req0) ''c'' ''t2'') =
     \<lparr>code = 429,
      body = ErrorEnvelope ''Service overloaded: queue full: active=0, queued=2, max=2''
               ''server_error'' ''rate_limit_exceeded''\<rparr> \<and>
   queue (snd (Server_CreateJob w_full (Inr req0) ''c'' ''t2'')) = [''a'', ''b''] \<and>
   hget (metas (storage (snd (Server_CreateJob w_full (Inr req0) ''c'' ''t2''))) ''c'') ''status''
     = ''failed''"
proof -
  have full: "maxQueueSize w_full \<le> activeJobs w_full + int (length (queue w_full))"
    by (simp add: w_full_eq)
  have ok: "faults (storage w_full) = []"
    by (simp add: w_full_eq emptyStorage_def)
  have m: "overloadMessage w_full = ''queue full: active=0, queued=2, max=2''"
    by (simp add: overloadMessage_def w_full_eq itoa_def digits.simps)
  have q: "queue w_full = [''a'', ''b'']"
    by (simp add: w_full_eq)
  show ?thesis
    using CreateJob_overload [OF full ok, where req = req0 and jobID = "''c''" and now = "''t2''"] full ok
    by (simp add: m q StatusFailed_def split: prod.splits)
qed

section \<open>The Gateway's auth check\<close>

lemma TrimPrefix_append [simp]: "TrimPrefix (p @ s) p = s"
  by (simp add: TrimPrefix_def HasPrefix_def)

lemma TrimPrefix_no_prefix: "\<not> HasPrefix s p \<Longrightarrow> TrimPrefix s p = s"
  by (simp add: TrimPrefix_def)

text \<open>
  C9, as stated: with auth enabled, every request whose Authorization header equals
  the configured key after stripping at most one leading \<open>Bearer \<close> is accepted, the
  bare key in particular. It is false when the configured key is empty: the header
  that equals it, bare, is the empty header, and \<open>validateAuth\<close> rejects an empty
  header as missing before it compares anything.
\<close>

theorem validateAuth_empty_header_counterexample:
  "APIKeyRequired (authConfig []) \<and>
   TrimPrefix [] ''Bearer '' = APIKey (authConfig []) \<and>
   validateAuth (authConfig []) [] = Some ''missing authorization header''"
  by (simp add: authConfig_def validateAuth_def TrimPrefix_def HasPrefix_def)

text \<open>
  C9, amended: with auth enabled, \<open>validateAuth\<close> accepts exactly the requests whose
  Authorization header is not empty and equals the configured key after one leading
  \<open>Bearer \<close> is stripped. So \<open>Bearer \<close> followed by the key is always accepted (for
  the empty key that is the header \<open>Bearer \<close>), and the bare key is accepted when it
  is not empty and does not itself start with \<open>Bearer \<close>.
\<close>

theorem validateAuth_accepts:
  assumes "APIKeyRequired cfg"
  shows "((validateAuth cfg authHeader = None) =
            (authHeader \<noteq> [] \<and> TrimPrefix authHeader ''Bearer '' = APIKey cfg)) \<and>
         validateAuth cfg (''Bearer '' @ APIKey cfg) = None \<and>
         (APIKey cfg \<noteq> [] \<and> \<not> HasPrefix (APIKey cfg) ''Bearer '' \<longrightarrow>
            validateAuth cfg (APIKey cfg) = None)"
proof -
  have strip: "TrimPrefix (''Bearer '' @ APIKey cfg) ''Bearer '' = APIKey cfg"
    by (rule TrimPrefix_append)
  have bearer: "validateAuth cfg (''Bearer '' @ APIKey cfg) = None"
    using assms strip by (simp add: validateAuth_def Let_def del: TrimPrefix_append)
  have iff: "(validateAuth cfg authHeader = None) =
            (authHeader \<noteq> [] \<and> TrimPrefix authHeader ''Bearer '' = APIKey cfg)"
    using assms by (simp add: validateAuth_def Let_def)
  have bare: "APIKey cfg \<noteq> [] \<and> \<not> HasPrefix (APIKey cfg) ''Bearer '' \<longrightarrow>
            validateAuth cfg (APIKey cfg) = None"
    using assms by (simp add: validateAuth_def Let_def TrimPrefix_no_prefix)
  show ?thesis using bearer iff bare by blast
qed

theorem validateAuth_accepts_witness:
  "APIKeyRequired (authConfig ''sk-test'') \<and>
   validateAuth (authConfig ''sk-test'') ''sk-test'' = None \<and>
   validateAuth (authConfig ''sk-test'') ''Bearer sk-test'' = None \<and>
   validateAuth (authConfig ''sk-test'') ''Bearer Bearer sk-test'' \<noteq> None"
  using validateAuth_accepts [of "authConfig ''sk-test''" "''Bearer Bearer sk-test''"]
        validateAuth_accepts [of "authConfig ''sk-test''" "''sk-test''"]
  by (simp add: authConfig_def HasPrefix_def TrimPrefix_def)

section \<open>Scenarios\<close>

lemmas storage_defs = HSet_def HGet_def Storage_CreateJob_def GetJobMeta_def UpdateJobStatus_def
  AddChunk_def GetChunks_def IncrSeq_def SetTTL_def hset_def hget_def rdb_def emptyStorage_def

lemmas worker_defs = NewWorker_def Enqueue_def Enqueue_check_def Enqueue_send_def
  Enqueue_count_def Cancel_def isCancelled_def run_begin_def run_end_def finishJobWithError_def
  Server_CreateJob_def Server_CancelJob_def scanStep_def processJob_def run_once_def
  StatusQueued_def StatusRunning_def StatusCompleted_def StatusFailed_def StatusCancelled_def
  TrimSpace_def TrimPrefix_def HasPrefix_def isSpace_def Let_def

lemma w_hello_eq:
  "w_hello =
     \<lparr>storage = (emptyStorage [])
        \<lparr>metas := (\<lambda>_. [])(''j'' := [(''status'', ''completed''), (''model'', ''gpt-oss:20b''),
                                     (''created_at'', ''t0''), (''completed_at'', ''t1'')]),
         chunkLists := (\<lambda>_. [])(''j'' :=
            [\<lparr>Seq = 1, Delta = ''Hel'', Done = False, FinishReason = [], Error = []\<rparr>,
             \<lparr>Seq = 2, Delta = ''lo'', Done = False, FinishReason = [], Error = []\<rparr>,
             \<lparr>Seq = 3, Delta = [], Done = True, FinishReason = ''stop'', Error = []\<rparr>]),
         seqs := (\<lambda>_. 0)(''j'' := 3),
         ttl_meta := (\<lambda>_. None)(''j'' \<mapsto> 86400),
         ttl_chunks := (\<lambda>_. None)(''j'' \<mapsto> 86400),
         ttl_seq := (\<lambda>_. None)(''j'' \<mapsto> 86400)\<rparr>,
      concurrency = 1, maxQueueSize = 2, queue = [], cancelled = (\<lambda>_. False),
      activeJobs = 0, queuedJobs = 0\<rparr>"
  by (simp add: w_hello_def hello_def req0_def dec0_def mkRecord_def storage_defs worker_defs)



section \<open>The events endpoint\<close>

lemma collectChunks_take:
  "length acc < 1000 \<Longrightarrow>
   collectChunks n acc xs = take 1000 (acc @ filter (\<lambda>c. n < Seq c) xs)"
proof (induction xs arbitrary: acc)
  case Nil
  then show ?case by simp
next
  case (Cons x xs)
  show ?case
  proof (cases "n < Seq x")
    case False
    then show ?thesis using Cons by simp
  next
    case True
    show ?thesis
    proof (cases "length (acc @ [x]) \<ge> 1000")
      case True
      then have "length acc = 999" using Cons.prems by simp
      then show ?thesis using \<open>n < Seq x\<close> by (simp add: Let_def)
    next
      case False
      then have "length (acc @ [x]) < 1000" by simp
      from Cons.IH [OF this] show ?thesis using \<open>n < Seq x\<close> False by (simp add: Let_def)
    qed
  qed
qed

lemma GetChunks_nofault:
  "faults s = [] \<Longrightarrow>
   GetChunks s j n = (Inr (take 1000 (filter (\<lambda>c. n < Seq c) (chunkLists s j))), s)"
  by (simp add: GetChunks_def rdb_nofault collectChunks_take del: collectChunks.simps)

lemma sorted_wrt_map_take_filter:
  "sorted_wrt (<) (map f xs) \<Longrightarrow> sorted_wrt (<) (map f (take k (filter P xs)))"
proof -
  assume "sorted_wrt (<) (map f xs)"
  then have "sorted_wrt (\<lambda>a b. f a < f b) xs" by (simp add: sorted_wrt_map)
  then have "sorted_wrt (\<lambda>a b. f a < f b) (filter P xs)" by (rule sorted_wrt_filter)
  then have "sorted_wrt (\<lambda>a b. f a < f b) (take k (filter P xs))" by (rule sorted_wrt_take)
  then show ?thesis by (simp add: sorted_wrt_map)
qed

lemma Atoi_Nil [simp]: "Atoi [] = None"
  by (simp add: Atoi_def)

lemma digitVal_digit: "d < 10 \<Longrightarrow> digitVal (''0123456789'' ! d) = Some d"
proof -
  assume "d < 10"
  then consider "d = 0" | "d = 1" | "d = 2" | "d = 3" | "d = 4" | "d = 5" | "d = 6" | "d = 7"
    | "d = 8" | "d = 9" by atomize_elim arith
  then show ?thesis by cases (simp_all add: digitVal_def)
qed

lemma digit_no_sign: "d < 10 \<Longrightarrow> ''0123456789'' ! d \<noteq> CHR ''-'' \<and> ''0123456789'' ! d \<noteq> CHR ''+''"
proof -
  assume "d < 10"
  then consider "d = 0" | "d = 1" | "d = 2" | "d = 3" | "d = 4" | "d = 5" | "d = 6" | "d = 7"
    | "d = 8" | "d = 9" by atomize_elim arith
  then show ?thesis by cases simp_all
qed

lemma parseDigits_snoc:
  "parseDigits acc (xs @ [c]) =
     (case parseDigits acc xs of
        None \<Rightarrow> None
      | Some a \<Rightarrow> (case digitVal c of None \<Rightarrow> None | Some d \<Rightarrow> Some (a * 10 + d)))"
  by (induction xs arbitrary: acc) (auto split: option.splits)

lemma parseDigits_digits: "parseDigits 0 (digits n) = Some n"
proof (induction n rule: digits.induct)
  case (1 n)
  show ?case
  proof (cases "n < 10")
    case True
    then show ?thesis by (subst digits.simps) (simp add: digitVal_digit)
  next
    case False
    have "n mod 10 < 10" by simp
    then have d: "digitVal (''0123456789'' ! (n mod 10)) = Some (n mod 10)"
      by (rule digitVal_digit)
    have "parseDigits 0 (digits n) = Some (n div 10 * 10 + n mod 10)"
      using False 1 d by (subst digits.simps) (simp add: parseDigits_snoc del: digitVal_digit)
    then show ?thesis by simp
  qed
qed

lemma digits_hd: "\<exists>d r. d < 10 \<and> digits n = (''0123456789'' ! d) # r"
proof (induction n rule: digits.induct)
  case (1 n)
  show ?case
  proof (cases "n < 10")
    case True
    then show ?thesis by (subst digits.simps) auto
  next
    case False
    with 1 obtain d r where "d < 10" "digits (n div 10) = (''0123456789'' ! d) # r" by blast
    then show ?thesis using False by (subst digits.simps) auto
  qed
qed

lemma Atoi_itoa: "- (2 ^ 63) \<le> n \<Longrightarrow> n < 2 ^ 63 \<Longrightarrow> Atoi (itoa n) = Some n"
proof -
  assume lo: "- (2 ^ 63) \<le> n" and hi: "n < 2 ^ 63"
  show ?thesis
  proof (cases "n < 0")
    case True
    obtain d r where "digits (nat (- n)) = (''0123456789'' ! d) # r" using digits_hd by blast
    then have ne: "digits (nat (- n)) \<noteq> []" by simp
    show ?thesis
      using True lo hi ne by (simp add: Atoi_def itoa_def parseDigits_digits Let_def)
  next
    case False
    obtain d r where d: "d < 10" "digits (nat n) = (''0123456789'' ! d) # r"
      using digits_hd by blast
    have p: "parseDigits 0 ((''0123456789'' ! d) # r) = Some (nat n)"
      using parseDigits_digits [of "nat n"] d by simp
    show ?thesis
      using False lo hi digit_no_sign [OF d(1)] p
      by (simp add: Atoi_def itoa_def d Let_def del: parseDigits.simps)
  qed
qed

lemma fromSeqOf_itoa: "- (2 ^ 63) \<le> n \<Longrightarrow> n < 2 ^ 63 \<Longrightarrow> fromSeqOf (itoa n) = n"
  by (simp add: fromSeqOf_def Atoi_itoa)

text \<open>
  C4, as stated: for every job and every integer \<open>N\<close>, the events endpoint with
  \<open>from_seq=N\<close> returns only chunks with \<open>seq > N\<close>. It is false for an \<open>N\<close> beyond
  the range of \<open>int\<close>: \<open>strconv.Atoi\<close> fails on it, \<open>Server_GetEvents\<close> keeps its
  default \<open>fromSeq = -1\<close>, and the whole log comes back. Below, \<open>N = 2^63\<close> on the
  finished job of scenario S1: all three chunks are returned, each with \<open>seq \<le> N\<close>.
\<close>

theorem GetEvents_out_of_range_counterexample:
  "fst (Server_GetEvents w_hello ''j'' ''9223372036854775808'') =
     \<lparr>code = 200,
      body = EventsJSON
        \<lparr>ev_Status = ''completed'',
         ev_Chunks =
           [\<lparr>Seq = 1, Delta = ''Hel'', Done = False, FinishReason = [], Error = []\<rparr>,
            \<lparr>Seq = 2, Delta = ''lo'', Done = False, FinishReason = [], Error = []\<rparr>,
            \<lparr>Seq = 3, Delta = [], Done = True, FinishReason = ''stop'', Error = []\<rparr>]\<rparr>\<rparr> \<and>
   (3::int) \<le> 9223372036854775808"
  by (simp add: w_hello_eq Server_GetEvents_def Atoi_def digitVal_def storage_defs Let_def)

text \<open>
  C4, amended: for every known job, whatever \<open>from_seq\<close> is, the events endpoint
  answers with the chunks of the log whose \<open>seq\<close> exceeds \<open>fromSeq\<close>, in the order of
  the log and cut after the first 1000: none has \<open>seq \<le> fromSeq\<close>, there are at most
  1000, and they ascend in \<open>seq\<close> when the log does. \<open>fromSeq\<close> is \<open>N\<close> when
  \<open>from_seq\<close> is the decimal text of an \<open>N\<close> in the range of \<open>int\<close>
  (\<open>-2^63 \<le> N < 2^63\<close>) and \<open>-1\<close> when \<open>from_seq\<close> does not parse. (The Redis reads
  are taken to succeed.)
\<close>

theorem GetEvents_after_from_seq:
  assumes "faults (storage w) = []" and "metas (storage w) jobID \<noteq> []"
  shows "(\<exists>ev. fst (Server_GetEvents w jobID seqStr) = \<lparr>code = 200, body = EventsJSON ev\<rparr> \<and>
              ev_Chunks ev = take 1000 (filter (\<lambda>c. fromSeqOf seqStr < Seq c)
                                          (chunkLists (storage w) jobID)) \<and>
              (\<forall>c \<in> set (ev_Chunks ev). fromSeqOf seqStr < Seq c) \<and>
              length (ev_Chunks ev) \<le> 1000 \<and>
              (sorted_wrt (<) (map Seq (chunkLists (storage w) jobID)) \<longrightarrow>
                 sorted_wrt (<) (map Seq (ev_Chunks ev)))) \<and>
         (- (2 ^ 63) \<le> N \<and> N < 2 ^ 63 \<longrightarrow> fromSeqOf (itoa N) = N) \<and>
         (Atoi seqStr = None \<longrightarrow> fromSeqOf seqStr = - 1)"
proof -
  let ?n = "fromSeqOf seqStr"
  let ?cs = "take 1000 (filter (\<lambda>c. ?n < Seq c) (chunkLists (storage w) jobID))"
  have n: "(if seqStr \<noteq> [] then (case Atoi seqStr of Some seq \<Rightarrow> seq | None \<Rightarrow> - 1) else - 1) = ?n"
    by (simp add: fromSeqOf_def)
  obtain m where meta: "GetJobMeta (storage w) jobID = (Inr m, storage w)"
    using assms by (simp add: GetJobMeta_def rdb_nofault Let_def)
  let ?ev = "\<lparr>ev_Status = meta_Status m, ev_Chunks = ?cs\<rparr>"
  have "fst (Server_GetEvents w jobID seqStr) = \<lparr>code = 200, body = EventsJSON ?ev\<rparr>"
    unfolding Server_GetEvents_def n using meta assms(1) by (simp add: GetChunks_nofault)
  moreover have "ev_Chunks ?ev = ?cs" by simp
  moreover have "\<forall>c \<in> set ?cs. ?n < Seq c"
    by (auto dest: in_set_takeD)
  moreover have "length ?cs \<le> 1000" by simp
  moreover have "sorted_wrt (<) (map Seq (chunkLists (storage w) jobID)) \<longrightarrow>
                 sorted_wrt (<) (map Seq ?cs)"
    by (simp add: sorted_wrt_map_take_filter)
  ultimately have "\<exists>ev. fst (Server_GetEvents w jobID seqStr) = \<lparr>code = 200, body = EventsJSON ev\<rparr> \<and>
              ev_Chunks ev = ?cs \<and>
              (\<forall>c \<in> set (ev_Chunks ev). ?n < Seq c) \<and>
              length (ev_Chunks ev) \<le> 1000 \<and>
              (sorted_wrt (<) (map Seq (chunkLists (storage w) jobID)) \<longrightarrow>
                 sorted_wrt (<) (map Seq (ev_Chunks ev)))"
    by metis
  moreover have "- (2 ^ 63) \<le> N \<and> N < 2 ^ 63 \<longrightarrow> fromSeqOf (itoa N) = N"
    by (simp add: fromSeqOf_itoa)
  moreover have "Atoi seqStr = None \<longrightarrow> fromSeqOf seqStr = - 1"
    by (simp add: fromSeqOf_def)
  ultimately show ?thesis by blast
qed


theorem GetEvents_after_from_seq_witness:
  "faults (storage w_hello) = [] \<and> metas (storage w_hello) ''j'' \<noteq> [] \<and>
   sorted_wrt (<) (map Seq (chunkLists (storage w_hello) ''j'')) \<and>
   (\<exists>ev. fst (Server_GetEvents w_hello ''j'' ''1'') = \<lparr>code = 200, body = EventsJSON ev\<rparr> \<and>
         map Seq (ev_Chunks ev) = [2, 3]) \<and>
   fromSeqOf (itoa 1) = 1 \<and> fromSeqOf ''abc'' = - 1"
proof -
  have a: "faults (storage w_hello) = []" "metas (storage w_hello) ''j'' \<noteq> []"
    by (simp_all add: w_hello_eq emptyStorage_def)
  have f: "fromSeqOf ''1'' = 1" "Atoi ''abc'' = None"
    by (simp_all add: fromSeqOf_def Atoi_def digitVal_def)
  have l: "chunkLists (storage w_hello) ''j'' =
            [\<lparr>Seq = 1, Delta = ''Hel'', Done = False, FinishReason = [], Error = []\<rparr>,
             \<lparr>Seq = 2, Delta = ''lo'', Done = False, FinishReason = [], Error = []\<rparr>,
             \<lparr>Seq = 3, Delta = [], Done = True, FinishReason = ''stop'', Error = []\<rparr>]"
    by (simp add: w_hello_eq emptyStorage_def)
  show ?thesis
    using GetEvents_after_from_seq [OF a, where seqStr = "''1''" and N = 1]
          GetEvents_after_from_seq [OF a, where seqStr = "''abc''" and N = 1]
    by (auto simp: a f l)
qed

section \<open>The executor\<close>

lemma IncrSeq_nofault:
  "faults s = [] \<Longrightarrow>
   IncrSeq s j = (Inr (seqs s j + 1), s\<lparr>seqs := (seqs s)(j := seqs s j + 1)\<rparr>)"
  by (simp add: IncrSeq_def rdb_nofault)

lemma AddChunk_nofault:
  "faults s = [] \<Longrightarrow>
   AddChunk s j c = (None, s\<lparr>chunkLists := (chunkLists s)(j := chunkLists s j @ [c])\<rparr>)"
  by (simp add: AddChunk_def rdb_nofault)

lemma UpdateJobStatus_nofault:
  "faults s = [] \<Longrightarrow>
   UpdateJobStatus s j st a e =
     (None, s\<lparr>metas := (metas s)(j := hset (metas s j)
        ([(''status'', st)] @ (if a \<noteq> [] then [(''completed_at'', a)] else [])
          @ (if e \<noteq> [] then [(''error'', e)] else [])))\<rparr>)"
  by (simp add: UpdateJobStatus_def HSet_nofault)

lemma finishJobWithError_nofault:
  "faults (storage w) = [] \<Longrightarrow>
   finishJobWithError w j msg now =
     w\<lparr>storage := (storage w)
          \<lparr>seqs := (seqs (storage w))(j := seqs (storage w) j + 1),
           chunkLists := (chunkLists (storage w))
              (j := chunkLists (storage w) j @ [errorChunk (seqs (storage w) j + 1) msg]),
           metas := (metas (storage w))(j := hset (metas (storage w) j)
              ([(''status'', StatusFailed)] @ (if now \<noteq> [] then [(''completed_at'', now)] else [])
                @ (if msg \<noteq> [] then [(''error'', msg)] else [])))\<rparr>\<rparr>"
  by (simp add: finishJobWithError_def IncrSeq_nofault AddChunk_nofault UpdateJobStatus_nofault
      errorChunk_def)

lemma scanStep_cancelled:
  "isCancelled w j \<Longrightarrow>
   scanStep dec now w j fr text = Return (finishJobWithError w j ''cancelled'' now)"
  by (simp add: scanStep_def)

lemma scanStep_record:
  assumes "\<not> isCancelled w j" and "isRecordLine text" and "dec (payloadOf text) = Inr r"
    and "faults (storage w) = []"
  shows "scanStep dec now w j ''stop'' text =
     (let w' = w\<lparr>storage := (storage w)
                  \<lparr>seqs := (seqs (storage w))(j := seqs (storage w) j + 1),
                   chunkLists := (chunkLists (storage w))
                     (j := chunkLists (storage w) j @ [chunkOf r (seqs (storage w) j + 1)])\<rparr>\<rparr>
      in if rec_Done r then Break w' else Continue w' ''stop'')"
  using assms
  by (simp add: scanStep_def isRecordLine_def payloadOf_def Let_def IncrSeq_nofault
      AddChunk_nofault chunkOf_def)

lemma scanStep_Continue_same:
  "scanStep dec now w j fr text = Continue w' fr' \<Longrightarrow> fr' = fr"
  by (auto simp: scanStep_def Let_def split: if_splits sum.splits prod.splits)


lemma rdb_eq:
  "rdb s = (case faults s of [] \<Rightarrow> None | f # fs \<Rightarrow> f, s\<lparr>faults := tl (faults s)\<rparr>)"
  by (cases "faults s") (simp_all add: rdb_def)

lemma grows_refl [simp]: "grows P j s s"
  by (simp add: grows_def)

lemma grows_same: "chunkLists s' j = chunkLists s j \<Longrightarrow> grows P j s s'"
  by (simp add: grows_def)

lemma grows_trans: "grows P j s s' \<Longrightarrow> grows P j s' s'' \<Longrightarrow> grows P j s s''"
  by (auto simp: grows_def)

lemma chunkLists_HSet [simp]: "chunkLists (snd (HSet s j fvs)) = chunkLists s"
  by (simp add: HSet_def rdb_eq split: option.splits list.splits)

lemma chunkLists_UpdateJobStatus [simp]:
  "chunkLists (snd (UpdateJobStatus s j st a e)) = chunkLists s"
  by (simp add: UpdateJobStatus_def)

lemma chunkLists_HGet [simp]: "chunkLists (snd (HGet s j f)) = chunkLists s"
  by (simp add: HGet_def rdb_eq split: option.splits list.splits)

lemma chunkLists_GetJobMeta [simp]: "chunkLists (snd (GetJobMeta s j)) = chunkLists s"
  by (simp add: GetJobMeta_def rdb_eq Let_def split: option.splits list.splits)

lemma chunkLists_IncrSeq [simp]: "chunkLists (snd (IncrSeq s j)) = chunkLists s"
  by (simp add: IncrSeq_def rdb_eq split: option.splits list.splits)

lemma chunkLists_SetTTL [simp]: "chunkLists (snd (SetTTL s j t)) = chunkLists s"
  by (simp add: SetTTL_def rdb_eq Let_def split: option.splits list.splits)

lemma grows_AddChunk: "P c \<Longrightarrow> grows P j s (snd (AddChunk s j c))"
  by (simp add: AddChunk_def rdb_eq grows_def split: option.splits list.splits)

lemma grows_finishJobWithError:
  assumes "msg \<noteq> []"
  shows "grows (translated dec lines) j (storage w) (storage (finishJobWithError w j msg now))"
proof -
  obtain r s1 where i: "IncrSeq (storage w) j = (r, s1)" by (cases "IncrSeq (storage w) j")
  define c where "c = errorChunk (case r of Inl e \<Rightarrow> 0 | Inr v \<Rightarrow> v) msg"
  obtain e2 s2 where a: "AddChunk s1 j c = (e2, s2)" by (cases "AddChunk s1 j c")
  obtain e3 s3 where u: "UpdateJobStatus s2 j StatusFailed now msg = (e3, s3)"
    by (cases "UpdateJobStatus s2 j StatusFailed now msg")
  have fin: "storage (finishJobWithError w j msg now) = s3"
    using i a u by (simp add: finishJobWithError_def c_def errorChunk_def)
  have "translated dec lines c"
    using assms by (auto simp: translated_def c_def errorChunk_def)
  then have "grows (translated dec lines) j s1 s2"
    using grows_AddChunk [of "translated dec lines" c j s1] a by simp
  moreover have "chunkLists s1 = chunkLists (storage w)"
    using chunkLists_IncrSeq [of "storage w" j] i by simp
  moreover have "chunkLists s3 = chunkLists s2"
    using chunkLists_UpdateJobStatus [of s2 j StatusFailed now msg] u by simp
  ultimately show ?thesis
    unfolding fin by (simp add: grows_def)
qed


lemma chunkOf_stop:
  "\<lparr>Seq = n, Delta = msg_Content r, Done = rec_Done r,
    FinishReason = (if rec_Done r
                    then (if rec_Done r \<and> rec_DoneReason r = ''length'' then ''length'' else ''stop'')
                    else []),
    Error = []\<rparr> = chunkOf r n"
  by (simp add: chunkOf_def)

lemma grows_scanStep:
  assumes "text \<in> lines"
  shows "grows (translated dec lines) j (storage w)
           (storage (workerOf (scanStep dec now w j ''stop'' text)))"
proof (cases "isCancelled w j")
  case True
  then show ?thesis
    by (simp add: scanStep_cancelled grows_finishJobWithError)
next
  case nc: False
  show ?thesis
  proof (cases "isRecordLine text")
    case False
    then show ?thesis using nc
      by (auto simp: scanStep_def isRecordLine_def payloadOf_def Let_def)
  next
    case rl: True
    show ?thesis
    proof (cases "dec (payloadOf text)")
      case (Inl err)
      then have "scanStep dec now w j ''stop'' text
                   = Return (finishJobWithError w j (''decode error: '' @ err) now)"
        using nc rl by (simp add: scanStep_def isRecordLine_def payloadOf_def Let_def)
      then show ?thesis by (simp add: grows_finishJobWithError)
    next
      case (Inr r)
      obtain x s1 where i: "IncrSeq (storage w) j = (x, s1)" by (cases "IncrSeq (storage w) j")
      have s1: "chunkLists s1 = chunkLists (storage w)"
        using chunkLists_IncrSeq [of "storage w" j] i by simp
      show ?thesis
      proof (cases x)
        case (Inl e)
        then have "scanStep dec now w j ''stop'' text = Continue (w\<lparr>storage := s1\<rparr>) ''stop''"
          using nc rl Inr i by (simp add: scanStep_def isRecordLine_def payloadOf_def Let_def)
        then show ?thesis using s1 by (simp add: grows_same)
      next
        case (Inr seq)
        let ?c = "chunkOf r seq"
        have t: "translated dec lines ?c"
          using assms rl \<open>dec (payloadOf text) = Inr r\<close>
          by (auto simp: translated_def chunkOf_def)
        have "storage (workerOf (scanStep dec now w j ''stop'' text)) = snd (AddChunk s1 j ?c)"
          using nc rl \<open>dec (payloadOf text) = Inr r\<close> i Inr
          by (simp add: scanStep_def isRecordLine_def payloadOf_def Let_def chunkOf_stop
              split: prod.splits)
        moreover have "grows (translated dec lines) j s1 (snd (AddChunk s1 j ?c))"
          using t by (rule grows_AddChunk)
        ultimately show ?thesis using s1 by (simp add: grows_def)
      qed
    qed
  qed
qed

lemma chunkLists_CancelJob [simp]:
  "chunkLists (storage (snd (Server_CancelJob w j now))) = chunkLists (storage w)"
proof -
  obtain e s2 where u: "UpdateJobStatus (storage w) j StatusCancelled now [] = (e, s2)"
    by (cases "UpdateJobStatus (storage w) j StatusCancelled now []")
  have "chunkLists s2 = chunkLists (storage w)"
    using chunkLists_UpdateJobStatus [of "storage w" j StatusCancelled now "[]"] u by simp
  then show ?thesis
    using u by (simp add: Server_CancelJob_def Cancel_def Let_def split: option.splits)
qed

lemma grows_scanLoop:
  "{text. Line text \<in> set es} \<subseteq> lines \<Longrightarrow>
   grows (translated dec lines) j (storage w) (storage (fst (scanLoop dec now w j ''stop'' es)))"
proof (induction es arbitrary: w)
  case Nil
  then show ?case by simp
next
  case (Cons e es)
  then have sub: "{text. Line text \<in> set es} \<subseteq> lines" by auto
  show ?case
  proof (cases e)
    case (CancelCall k t)
    have "grows (translated dec lines) j (storage w) (storage (snd (Server_CancelJob w k t)))"
      by (simp add: grows_same)
    then show ?thesis
      using Cons.IH [OF sub, of "snd (Server_CancelJob w k t)"] CancelCall
      by (auto intro: grows_trans)
  next
    case (Line ln)
    then have "ln \<in> lines" using Cons.prems by auto
    then have g: "grows (translated dec lines) j (storage w)
                    (storage (workerOf (scanStep dec now w j ''stop'' ln)))"
      by (rule grows_scanStep)
    show ?thesis
    proof (cases "scanStep dec now w j ''stop'' ln")
      case (Continue w' fr')
      then have "fr' = ''stop''" by (rule scanStep_Continue_same)
      then show ?thesis
        using g Continue Line Cons.IH [OF sub, of w'] by (auto intro: grows_trans)
    next
      case (Break w')
      then show ?thesis using g Line by simp
    next
      case (Return w')
      then show ?thesis using g Line by simp
    qed
  qed
qed


lemma grows_processJob:
  "grows (translated dec (linesOf up)) j (storage w) (storage (processJob dec now w j up))"
proof -
  let ?P = "translated dec (linesOf up)"
  obtain r1 s1 where g: "GetJobMeta (storage w) j = (r1, s1)" by (cases "GetJobMeta (storage w) j")
  have c1: "chunkLists s1 = chunkLists (storage w)"
    using chunkLists_GetJobMeta [of "storage w" j] g by simp
  show ?thesis
  proof (cases r1)
    case (Inl e)
    then show ?thesis using g c1 by (simp add: processJob_def grows_same)
  next
    case (Inr meta)
    obtain e2 s2 where u: "UpdateJobStatus s1 j StatusRunning [] [] = (e2, s2)"
      by (cases "UpdateJobStatus s1 j StatusRunning [] []")
    have c2: "chunkLists s2 = chunkLists (storage w)"
      using chunkLists_UpdateJobStatus [of s1 j StatusRunning "[]" "[]"] u c1 by simp
    show ?thesis
    proof (cases e2)
      case (Some e)
      then show ?thesis using g Inr u c2 by (simp add: processJob_def grows_same)
    next
      case None
      obtain m s3 where h3: "HGet s2 j ''messages'' = (m, s3)" by (cases "HGet s2 j ''messages''")
      obtain p s4 where h4: "HGet s3 j ''options'' = (p, s4)" by (cases "HGet s3 j ''options''")
      have c4: "chunkLists s4 = chunkLists (storage w)"
        using chunkLists_HGet [of s2 j "''messages''"] chunkLists_HGet [of s3 j "''options''"]
          h3 h4 c2 by simp
      let ?w4 = "w\<lparr>storage := s4\<rparr>"
      have g4: "grows ?P j (storage w) (storage ?w4)"
        using c4 by (simp add: grows_same)
      have fin: "msg \<noteq> [] \<Longrightarrow> grows ?P j (storage w) (storage (finishJobWithError ?w4 j msg now))"
        for msg
        using g4 grows_finishJobWithError [of msg dec "linesOf up" j ?w4 now]
        by (rule grows_trans)
      have unfold: "processJob dec now w j up =
          (case up of
             MarshalError err \<Rightarrow> finishJobWithError ?w4 j (''marshal error: '' @ err) now
           | RequestError err \<Rightarrow> finishJobWithError ?w4 j (''create request error: '' @ err) now
           | DoError err \<Rightarrow> finishJobWithError ?w4 j (''ollama request error: '' @ err) now
           | Resp statusCode events scanErr \<Rightarrow>
               (if statusCode \<noteq> 200
                then finishJobWithError ?w4 j (''ollama status: '' @ itoa statusCode) now
                else
                  (case scanLoop dec now ?w4 j ''stop'' events of
                     (w5, True) \<Rightarrow> w5
                   | (w5, False) \<Rightarrow>
                       (case scanErr of
                          Some err \<Rightarrow> finishJobWithError w5 j (''stream error: '' @ err) now
                        | None \<Rightarrow>
                            (let (e6, s6) = UpdateJobStatus (storage w5) j StatusCompleted now [];
                                 (e7, s7) = SetTTL s6 j (24 * 3600)
                             in w5\<lparr>storage := s7\<rparr>)))))"
        using g Inr u None h3 h4 by (simp add: processJob_def Let_def)
      show ?thesis
      proof (cases up)
        case (MarshalError err)
        then show ?thesis using fin [of "''marshal error: '' @ err"] unfolding unfold by simp
      next
        case (RequestError err)
        then show ?thesis using fin [of "''create request error: '' @ err"] unfolding unfold by simp
      next
        case (DoError err)
        then show ?thesis using fin [of "''ollama request error: '' @ err"] unfolding unfold by simp
      next
        case (Resp statusCode events scanErr)
        show ?thesis
        proof (cases "statusCode = 200")
          case False
          then show ?thesis
            using Resp fin [of "''ollama status: '' @ itoa statusCode"] unfolding unfold by simp
        next
          case True
          obtain w5 b where l: "scanLoop dec now ?w4 j ''stop'' events = (w5, b)"
            by (cases "scanLoop dec now ?w4 j ''stop'' events")
          have "grows ?P j (storage ?w4) (storage (fst (scanLoop dec now ?w4 j ''stop'' events)))"
            by (rule grows_scanLoop) (simp add: Resp)
          then have g5: "grows ?P j (storage w) (storage w5)"
            using g4 l by (auto intro: grows_trans)
          show ?thesis
          proof (cases b)
            case True
            then show ?thesis using Resp \<open>statusCode = 200\<close> l g5 unfolding unfold by simp
          next
            case False
            show ?thesis
            proof (cases scanErr)
              case (Some err)
              have "grows ?P j (storage w5)
                      (storage (finishJobWithError w5 j (''stream error: '' @ err) now))"
                by (rule grows_finishJobWithError) simp
              then show ?thesis
                using Resp \<open>statusCode = 200\<close> l False Some g5
                unfolding unfold by (auto intro: grows_trans)
            next
              case None
              obtain e6 s6 where u6: "UpdateJobStatus (storage w5) j StatusCompleted now [] = (e6, s6)"
                by (cases "UpdateJobStatus (storage w5) j StatusCompleted now []")
              obtain e7 s7 where t7: "SetTTL s6 j (24 * 3600) = (e7, s7)"
                by (cases "SetTTL s6 j (24 * 3600)")
              have "chunkLists s6 = chunkLists (storage w5)"
                using chunkLists_UpdateJobStatus [of "storage w5" j StatusCompleted now "[]"]
                unfolding u6 by simp
              moreover have "chunkLists s7 = chunkLists s6"
                using chunkLists_SetTTL [of s6 j "24 * 3600"] unfolding t7 by simp
              ultimately have "chunkLists s7 = chunkLists (storage w5)" by simp
              then have "grows ?P j (storage w5) s7" by (simp add: grows_same)
              then show ?thesis
                using Resp \<open>statusCode = 200\<close> l False None g5 u6 t7
                unfolding unfold by (auto intro: grows_trans)
            qed
          qed
        qed
      qed
    qed
  qed
qed


lemma w_queued_eq:
  "w_queued =
     \<lparr>storage = (emptyStorage [])
        \<lparr>metas := (\<lambda>_. [])(''j'' := [(''status'', ''queued''), (''model'', ''gpt-oss:20b''),
                                     (''created_at'', ''t0'')])\<rparr>,
      concurrency = 1, maxQueueSize = 2, queue = [''j''], cancelled = (\<lambda>_. False),
      activeJobs = 0, queuedJobs = 1\<rparr>"
  by (simp add: w_queued_def req0_def storage_defs worker_defs)

text \<open>
  C6. Every upstream record the executor translates is appended as the chunk
  \<open>chunkOf r seq\<close>: the record's delta text and done flag, \<open>finish_reason\<close> set only
  when \<open>done\<close>, to \<open>length\<close> if the backend's \<open>done_reason\<close> is \<open>length\<close> and to
  \<open>stop\<close> otherwise. First for one round of the loop as \<open>processJob\<close> runs it
  (\<open>finishReason\<close> is \<open>stop\<close> in every round: a round that continues leaves it as
  it was): on a record line, the job not cancelled and Redis answering, the log
  grows by exactly that chunk, numbered by the incremented counter. Then for a
  whole run, whatever Redis and the backend do: the log only grows, and every chunk
  added is either the terminal chunk of an error or the chunk of a record on one of
  the lines delivered.
\<close>

theorem processJob_translates_records:
  "(\<not> isCancelled w jobID \<and> isRecordLine ln \<and> dec (payloadOf ln) = Inr r \<and>
    faults (storage w) = [] \<longrightarrow>
      chunkLists (storage (workerOf (scanStep dec now w jobID ''stop'' ln))) jobID
        = chunkLists (storage w) jobID @ [chunkOf r (seqs (storage w) jobID + 1)]) \<and>
   (scanStep dec now w jobID finishReason ln = Continue w' finishReason' \<longrightarrow>
      finishReason' = finishReason) \<and>
   (\<exists>new. chunkLists (storage (processJob dec now w jobID up)) jobID
             = chunkLists (storage w) jobID @ new \<and>
          (\<forall>c \<in> set new. translated dec (linesOf up) c))"
proof -
  have "chunkLists (storage (workerOf (scanStep dec now w jobID ''stop'' ln))) jobID
        = chunkLists (storage w) jobID @ [chunkOf r (seqs (storage w) jobID + 1)]"
    if "\<not> isCancelled w jobID" "isRecordLine ln" "dec (payloadOf ln) = Inr r"
      "faults (storage w) = []"
    using scanStep_record [of w jobID ln dec r now] that by (simp add: Let_def)
  moreover have "scanStep dec now w jobID finishReason ln = Continue w' finishReason' \<longrightarrow>
      finishReason' = finishReason"
    using scanStep_Continue_same by blast
  moreover have "\<exists>new. chunkLists (storage (processJob dec now w jobID up)) jobID
             = chunkLists (storage w) jobID @ new \<and>
          (\<forall>c \<in> set new. translated dec (linesOf up) c)"
    using grows_processJob [of dec up jobID w now] by (simp add: grows_def list_all_iff)
  ultimately show ?thesis by blast
qed

theorem processJob_translates_records_witness:
  "\<not> isCancelled w_queued ''j'' \<and>
   isRecordLine ''data: {content:A,done:true,done_reason:length}'' \<and>
   dec0 (payloadOf ''data: {content:A,done:true,done_reason:length}'')
     = Inr (mkRecord ''A'' True ''length'') \<and>
   faults (storage w_queued) = [] \<and>
   chunkLists (storage (workerOf (scanStep dec0 ''t1'' w_queued ''j'' ''stop''
       ''data: {content:A,done:true,done_reason:length}''))) ''j''
     = [\<lparr>Seq = 1, Delta = ''A'', Done = True, FinishReason = ''length'', Error = []\<rparr>]"
proof -
  have a: "\<not> isCancelled w_queued ''j''" "faults (storage w_queued) = []"
    "chunkLists (storage w_queued) ''j'' = []" "seqs (storage w_queued) ''j'' = 0"
    by (simp_all add: w_queued_eq isCancelled_def emptyStorage_def)
  have b: "isRecordLine ''data: {content:A,done:true,done_reason:length}''"
    "dec0 (payloadOf ''data: {content:A,done:true,done_reason:length}'')
       = Inr (mkRecord ''A'' True ''length'')"
    by (simp_all add: isRecordLine_def payloadOf_def TrimSpace_def TrimPrefix_def HasPrefix_def
        isSpace_def dec0_def)
  show ?thesis
    using processJob_translates_records [where w = w_queued and jobID = "''j''" and dec = dec0
        and ln = "''data: {content:A,done:true,done_reason:length}''"
        and r = "mkRecord ''A'' True ''length''" and now = "''t1''"]
      a b
    by (simp add: chunkOf_def mkRecord_def)
qed

section \<open>The sequence numbers of a log\<close>

lemma HGet_nofault: "faults s = [] \<Longrightarrow> HGet s j f = (hget (metas s j) f, s)"
  by (simp add: HGet_def rdb_nofault)

lemma GetJobMeta_nofault: "faults s = [] \<Longrightarrow> snd (GetJobMeta s j) = s"
  by (simp add: GetJobMeta_def rdb_nofault Let_def)

lemma SetTTL_nofault:
  "faults s = [] \<Longrightarrow>
   faults (snd (SetTTL s j t)) = [] \<and> chunkLists (snd (SetTTL s j t)) = chunkLists s \<and>
   seqs (snd (SetTTL s j t)) = seqs s"
  by (simp add: SetTTL_def rdb_nofault Let_def)

lemma sound_empty: "sound (emptyStorage [])"
  by (simp add: sound_def dense_def emptyStorage_def)

lemma sound_HSet: "sound s \<Longrightarrow> sound (snd (HSet s j fvs))"
  by (simp add: sound_def HSet_nofault dense_def)

lemma sound_UpdateJobStatus: "sound s \<Longrightarrow> sound (snd (UpdateJobStatus s j st a e))"
  by (simp add: UpdateJobStatus_def sound_HSet)

lemma sound_HGet: "sound s \<Longrightarrow> sound (snd (HGet s j f))"
  by (simp add: sound_def HGet_nofault)

lemma sound_GetJobMeta: "sound s \<Longrightarrow> sound (snd (GetJobMeta s j))"
  by (simp add: sound_def GetJobMeta_nofault)

lemma sound_SetTTL: "sound s \<Longrightarrow> sound (snd (SetTTL s j t))"
  using SetTTL_nofault [of s j t] by (simp add: sound_def dense_def)

lemma dense_append:
  assumes "dense s" and "Seq c = seqs s j + 1"
  shows "dense (s\<lparr>seqs := (seqs s)(j := seqs s j + 1),
                  chunkLists := (chunkLists s)(j := chunkLists s j @ [c])\<rparr>)"
proof -
  have "0 \<le> seqs s j" and "map Seq (chunkLists s j) = [1..seqs s j]"
    using assms(1) by (simp_all add: dense_def)
  moreover have "[1..seqs s j + 1] = [1..seqs s j] @ [seqs s j + 1]"
    using \<open>0 \<le> seqs s j\<close> by (simp add: upto_rec2)
  ultimately show ?thesis
    using assms by (simp add: dense_def)
qed

lemma sound_finishJobWithError:
  "sound (storage w) \<Longrightarrow> sound (storage (finishJobWithError w j msg now))"
proof -
  assume s: "sound (storage w)"
  then have f: "faults (storage w) = []" and d: "dense (storage w)" by (simp_all add: sound_def)
  let ?s1 = "(storage w)\<lparr>seqs := (seqs (storage w))(j := seqs (storage w) j + 1),
              chunkLists := (chunkLists (storage w))
                (j := chunkLists (storage w) j @ [errorChunk (seqs (storage w) j + 1) msg])\<rparr>"
  have "dense ?s1"
    by (rule dense_append [OF d]) (simp add: errorChunk_def)
  then show ?thesis
    using f by (simp add: finishJobWithError_nofault sound_def dense_def)
qed

lemma sound_scanStep:
  "sound (storage w) \<Longrightarrow> sound (storage (workerOf (scanStep dec now w j fr ln)))"
proof -
  assume s: "sound (storage w)"
  then have f: "faults (storage w) = []" and d: "dense (storage w)" by (simp_all add: sound_def)
  have app: "sound ((storage w)\<lparr>seqs := (seqs (storage w))(j := seqs (storage w) j + 1),
              chunkLists := (chunkLists (storage w))(j := chunkLists (storage w) j @ [c])\<rparr>)"
    if "Seq c = seqs (storage w) j + 1" for c
    using dense_append [OF d that] f by (simp add: sound_def)
  show ?thesis
    using s f sound_finishJobWithError [OF s]
    by (auto simp: scanStep_def Let_def IncrSeq_nofault AddChunk_nofault app
        split: sum.splits)
qed


lemma sound_CancelJob: "sound (storage w) \<Longrightarrow> sound (storage (snd (Server_CancelJob w j now)))"
  using sound_UpdateJobStatus [of "storage w" j StatusCancelled now "[]"]
  by (auto simp: Server_CancelJob_def Cancel_def Let_def split: prod.splits option.splits)

lemma sound_scanLoop:
  "sound (storage w) \<Longrightarrow> sound (storage (fst (scanLoop dec now w j fr es)))"
proof (induction es arbitrary: w fr)
  case Nil
  then show ?case by simp
next
  case (Cons e es)
  show ?case
  proof (cases e)
    case (CancelCall k t)
    then show ?thesis
      using Cons.IH [OF sound_CancelJob [OF Cons.prems]] by simp
  next
    case (Line ln)
    have s: "sound (storage (workerOf (scanStep dec now w j fr ln)))"
      using Cons.prems by (rule sound_scanStep)
    show ?thesis
    proof (cases "scanStep dec now w j fr ln")
      case (Continue w' fr')
      then show ?thesis using s Line Cons.IH [of w' fr'] by simp
    next
      case (Break w')
      then show ?thesis using s Line by simp
    next
      case (Return w')
      then show ?thesis using s Line by simp
    qed
  qed
qed

lemma sound_processJob:
  assumes "sound (storage w)"
  shows "sound (storage (processJob dec now w j up))"
proof -
  obtain r1 s1 where g: "GetJobMeta (storage w) j = (r1, s1)" by (cases "GetJobMeta (storage w) j")
  have c1: "sound s1" using sound_GetJobMeta [OF assms, of j] g by simp
  show ?thesis
  proof (cases r1)
    case (Inl e)
    then show ?thesis using g c1 by (simp add: processJob_def)
  next
    case (Inr meta)
    obtain e2 s2 where u: "UpdateJobStatus s1 j StatusRunning [] [] = (e2, s2)"
      by (cases "UpdateJobStatus s1 j StatusRunning [] []")
    have c2: "sound s2" using sound_UpdateJobStatus [OF c1, of j StatusRunning "[]" "[]"] u by simp
    show ?thesis
    proof (cases e2)
      case (Some e)
      then show ?thesis using g Inr u c2 by (simp add: processJob_def)
    next
      case None
      obtain m s3 where h3: "HGet s2 j ''messages'' = (m, s3)" by (cases "HGet s2 j ''messages''")
      obtain p s4 where h4: "HGet s3 j ''options'' = (p, s4)" by (cases "HGet s3 j ''options''")
      have c3: "sound s3" using sound_HGet [OF c2, of j "''messages''"] h3 by simp
      have c4: "sound s4" using sound_HGet [OF c3, of j "''options''"] h4 by simp
      let ?w4 = "w\<lparr>storage := s4\<rparr>"
      have s4: "sound (storage ?w4)" using c4 by simp
      have fin: "sound (storage (finishJobWithError ?w4 j msg now))" for msg
        using s4 by (rule sound_finishJobWithError)
      have unfold: "processJob dec now w j up =
          (case up of
             MarshalError err \<Rightarrow> finishJobWithError ?w4 j (''marshal error: '' @ err) now
           | RequestError err \<Rightarrow> finishJobWithError ?w4 j (''create request error: '' @ err) now
           | DoError err \<Rightarrow> finishJobWithError ?w4 j (''ollama request error: '' @ err) now
           | Resp statusCode events scanErr \<Rightarrow>
               (if statusCode \<noteq> 200
                then finishJobWithError ?w4 j (''ollama status: '' @ itoa statusCode) now
                else
                  (case scanLoop dec now ?w4 j ''stop'' events of
                     (w5, True) \<Rightarrow> w5
                   | (w5, False) \<Rightarrow>
                       (case scanErr of
                          Some err \<Rightarrow> finishJobWithError w5 j (''stream error: '' @ err) now
                        | None \<Rightarrow>
                            (let (e6, s6) = UpdateJobStatus (storage w5) j StatusCompleted now [];
                                 (e7, s7) = SetTTL s6 j (24 * 3600)
                             in w5\<lparr>storage := s7\<rparr>)))))"
        using g Inr u None h3 h4 by (simp add: processJob_def Let_def)
      show ?thesis
      proof (cases up)
        case (MarshalError err)
        then show ?thesis using fin unfolding unfold by simp
      next
        case (RequestError err)
        then show ?thesis using fin unfolding unfold by simp
      next
        case (DoError err)
        then show ?thesis using fin unfolding unfold by simp
      next
        case (Resp statusCode events scanErr)
        obtain w5 b where l: "scanLoop dec now ?w4 j ''stop'' events = (w5, b)"
          by (cases "scanLoop dec now ?w4 j ''stop'' events")
        have s5: "sound (storage w5)"
          using sound_scanLoop [OF s4, of dec now j "''stop''" events] l by simp
        have fin5: "sound (storage (finishJobWithError w5 j msg now))" for msg
          using s5 by (rule sound_finishJobWithError)
        obtain e6 s6 where u6: "UpdateJobStatus (storage w5) j StatusCompleted now [] = (e6, s6)"
          by (cases "UpdateJobStatus (storage w5) j StatusCompleted now []")
        obtain e7 s7 where t7: "SetTTL s6 j (24 * 3600) = (e7, s7)"
          by (cases "SetTTL s6 j (24 * 3600)")
        have c6: "sound s6"
          using sound_UpdateJobStatus [OF s5, of j StatusCompleted now "[]"] unfolding u6 by simp
        have c7: "sound s7"
          using sound_SetTTL [OF c6, of j "24 * 3600"] unfolding t7 by simp
        show ?thesis
          using Resp fin fin5 s5 c7 l u6 t7 unfolding unfold
          by (auto split: option.splits bool.splits)
      qed
    qed
  qed
qed

lemma sound_run_once: "sound (storage w) \<Longrightarrow> sound (storage (run_once dec now w up))"
proof -
  assume a: "sound (storage w)"
  have "sound (storage (processJob dec now (run_begin (w\<lparr>queue := rest\<rparr>)) j up))" for rest j
    by (rule sound_processJob) (simp add: run_begin_def a)
  then show ?thesis
    using a by (simp add: run_once_def run_end_def split: list.splits)
qed

lemma Enqueue_storage: "storage (snd (Enqueue w j)) = storage w"
  by (simp add: Enqueue_def Enqueue_send_def Enqueue_count_def split: option.splits)

lemma sound_CreateJob:
  assumes "sound (storage w)"
  shows "sound (storage (snd (Server_CreateJob w reqBody j now)))"
proof (cases reqBody)
  case (Inl err)
  then show ?thesis using assms by (simp add: Server_CreateJob_def)
next
  case (Inr req)
  have f: "faults (storage w) = []" using assms by (simp add: sound_def)
  let ?s1 = "(storage w)\<lparr>metas := (metas (storage w))
                (j := hset (metas (storage w) j)
                   [(''status'', StatusQueued), (''model'', req_Model req), (''created_at'', now)])\<rparr>"
  let ?s2 = "if length (req_Messages req) > 0
             then snd (HSet ?s1 j [(''messages'', marshalMessages (req_Messages req))]) else ?s1"
  let ?s3 = "if length (req_Options req) > 0
             then snd (HSet ?s2 j [(''options'', marshalOptions (req_Options req))]) else ?s2"
  have s1: "sound ?s1" using assms by (simp add: sound_def dense_def)
  have s2: "sound ?s2" using s1 by (simp add: sound_HSet)
  have s3: "sound ?s3" using s2 by (simp add: sound_HSet del: length_greater_0_conv)
  obtain e4 w4 where q: "Enqueue (w\<lparr>storage := ?s3\<rparr>) j = (e4, w4)"
    by (cases "Enqueue (w\<lparr>storage := ?s3\<rparr>) j")
  have "storage w4 = ?s3"
    using Enqueue_storage [of "w\<lparr>storage := ?s3\<rparr>" j] unfolding q by simp
  then have s4: "sound (storage w4)" using s3 by (simp only:)
  have u: "sound s5" if "UpdateJobStatus (storage w4) j StatusFailed now err = (e5, s5)"
    for err e5 s5
    using sound_UpdateJobStatus [OF s4, of j StatusFailed now err] that by simp
  have "Server_CreateJob w reqBody j now =
      (case Enqueue (w\<lparr>storage := ?s3\<rparr>) j of
         (Some err, w4) \<Rightarrow>
           (let (e5, s5) = UpdateJobStatus (storage w4) j StatusFailed now err
            in (\<lparr>code = 429,
                 body = ErrorEnvelope (''Service overloaded: '' @ err)
                          ''server_error'' ''rate_limit_exceeded''\<rparr>,
                w4\<lparr>storage := s5\<rparr>))
       | (None, w4) \<Rightarrow>
           (\<lparr>code = 200, body = JobJSON \<lparr>resp_JobID = j, resp_Status = StatusQueued\<rparr>\<rparr>, w4))"
    unfolding Server_CreateJob_def Storage_CreateJob_def Let_def Inr
    by (simp add: HSet_nofault [OF f])
  then show ?thesis
    unfolding q using s4 by (auto split: option.splits prod.splits dest: u)
qed

lemma sound_GetEvents: "sound (storage w) \<Longrightarrow> sound (storage (snd (Server_GetEvents w j q)))"
proof -
  assume a: "sound (storage w)"
  then have f: "faults (storage w) = []" by (simp add: sound_def)
  obtain r1 s1 where g: "GetJobMeta (storage w) j = (r1, s1)" by (cases "GetJobMeta (storage w) j")
  have s1: "s1 = storage w" using GetJobMeta_nofault [OF f, of j] g by simp
  show ?thesis
    using a f g s1 by (simp add: Server_GetEvents_def Let_def GetChunks_nofault split: sum.splits)
qed

lemma sound_GetStatus: "sound (storage w) \<Longrightarrow> sound (storage (snd (Server_GetStatus w j)))"
proof -
  assume a: "sound (storage w)"
  then have f: "faults (storage w) = []" by (simp add: sound_def)
  obtain r1 s1 where g: "GetJobMeta (storage w) j = (r1, s1)" by (cases "GetJobMeta (storage w) j")
  have s1: "s1 = storage w" using GetJobMeta_nofault [OF f, of j] g by simp
  show ?thesis
    using a g s1 by (simp add: Server_GetStatus_def split: sum.splits)
qed

lemma reachable_sound: "reachable [] n w \<Longrightarrow> sound (storage w)"
proof (induction rule: reachable.induct)
  case boot
  then show ?case by (simp add: NewWorker_def sound_empty)
next
  case (create w reqBody jobID now)
  then show ?case by (simp add: sound_CreateJob)
next
  case (events w jobID seqStr)
  then show ?case by (simp add: sound_GetEvents)
next
  case (status w jobID)
  then show ?case by (simp add: sound_GetStatus)
next
  case (cancel w jobID now)
  then show ?case by (simp add: sound_CancelJob)
next
  case (run w dec now up)
  then show ?case by (simp add: sound_run_once)
next
  case (scan w dec now jobID finishReason ln)
  then show ?case by (simp add: sound_scanStep)
next
  case (fail w jobID errorMsg now)
  then show ?case by (simp add: sound_finishJobWithError)
qed


lemma w_gap_log:
  "chunkLists (storage w_gap) ''j'' =
     [\<lparr>Seq = 1, Delta = ''Hel'', Done = False, FinishReason = [], Error = []\<rparr>,
      \<lparr>Seq = 3, Delta = [], Done = True, FinishReason = ''stop'', Error = []\<rparr>]"
  by (simp add: w_gap_def fs_gap_def hello_def req0_def dec0_def mkRecord_def storage_defs
      worker_defs)

text \<open>
  C5, as stated: for every job in any state, the chunks of its log, in insertion
  order, have the sequence numbers \<open>1..K\<close> for some \<open>K\<close>. It is false in a state
  reached through a failed Redis write. \<open>processJob\<close> draws the sequence number
  first and appends the chunk second, and when the append fails it logs the error and
  goes on: the number is spent and the log has a gap. Below, the \<open>AddChunk\<close> of the
  second record of scenario S1 fails, and the finished job's log holds 1 and 3.
\<close>

theorem log_gap_counterexample:
  "reachable fs_gap 1 w_gap \<and>
   map Seq (chunkLists (storage w_gap) ''j'') = [1, 3] \<and>
   2 \<notin> set (map Seq (chunkLists (storage w_gap) ''j''))"
proof -
  have r: "reachable fs_gap 1 w_gap"
    unfolding w_gap_def by (rule reachable.run, rule reachable.create, rule reachable.boot)
  have l: "map Seq (chunkLists (storage w_gap) ''j'') = [1, 3]"
    by (simp add: w_gap_log)
  show ?thesis using r l by simp
qed

text \<open>
  C5, amended: as long as no Redis command fails, in every state of the Worker
  (reached by any sequence of requests, executed jobs, rounds of the scanner loop
  and error terminations, for any job ids) the log of every job holds, in insertion
  order, exactly the sequence numbers \<open>1, 2, ..., K\<close>, strictly increasing, where
  \<open>K \<ge> 0\<close> is the value of the job's counter. (A state is taken between rounds of
  the loop, where a number drawn has also been appended.)
\<close>

theorem log_dense:
  assumes "reachable [] n w"
  shows "0 \<le> seqs (storage w) jobID \<and>
         map Seq (chunkLists (storage w) jobID) = [1..seqs (storage w) jobID] \<and>
         sorted_wrt (<) (map Seq (chunkLists (storage w) jobID)) \<and>
         set (map Seq (chunkLists (storage w) jobID)) = {1..seqs (storage w) jobID}"
proof -
  have "dense (storage w)"
    using reachable_sound [OF assms] by (simp add: sound_def)
  then have a: "0 \<le> seqs (storage w) jobID"
    and b: "map Seq (chunkLists (storage w) jobID) = [1..seqs (storage w) jobID]"
    by (simp_all add: dense_def)
  have "sorted_wrt (<) [1..seqs (storage w) jobID]"
    by (rule sorted_wrt_upto)
  then show ?thesis using a b by simp
qed

theorem log_dense_witness:
  "reachable [] 1 w_hello \<and>
   seqs (storage w_hello) ''j'' = 3 \<and>
   map Seq (chunkLists (storage w_hello) ''j'') = [1, 2, 3]"
proof -
  have r: "reachable [] 1 w_hello"
    unfolding w_hello_def by (rule reachable.run, rule reachable.create, rule reachable.boot)
  have s: "seqs (storage w_hello) ''j'' = 3"
    by (simp add: w_hello_eq emptyStorage_def)
  have "[1..3] = [1, 2, 3 :: int]"
    by (simp add: upto_rec1)
  then show ?thesis
    using log_dense [OF r, of "''j''"] r s by simp
qed


section \<open>Cancellation seen by the executor\<close>

lemma w_s4_store:
  "chunkLists (storage w_s4) ''j'' =
     [\<lparr>Seq = 1, Delta = ''Hel'', Done = False, FinishReason = [], Error = []\<rparr>,
      \<lparr>Seq = 2, Delta = [], Done = True, FinishReason = ''error'', Error = ''cancelled''\<rparr>]"
  "metas (storage w_s4) ''j'' =
     [(''status'', ''failed''), (''model'', ''gpt-oss:20b''), (''created_at'', ''t0''),
      (''completed_at'', ''t2''), (''error'', ''cancelled'')]"
  by (simp_all add: w_s4_def cancelMidStream_def w_queued_eq dec0_def mkRecord_def storage_defs
      worker_defs)

text \<open>
  C1. When the executor sees the job cancelled between two records, it appends the
  terminal chunk with \<open>done = true\<close> and \<open>error = cancelled\<close>; that half of C1
  holds. The stored status after the executor has finished is not \<open>cancelled\<close>,
  though: the executor ends the job through \<open>finishJobWithError\<close>, which writes
  \<open>StatusFailed\<close> over the \<open>cancelled\<close> that the cancel endpoint had stored.
  (Redis is taken to answer; the statement is about one round of the loop, after
  which \<open>processJob\<close> returns.)
\<close>

theorem cancel_observed_ends_failed:
  assumes "isCancelled w jobID" and "faults (storage w) = []"
  shows "scanStep dec now w jobID finishReason ln
           = Return (finishJobWithError w jobID ''cancelled'' now) \<and>
         chunkLists (storage (finishJobWithError w jobID ''cancelled'' now)) jobID
           = chunkLists (storage w) jobID @
             [\<lparr>Seq = seqs (storage w) jobID + 1, Delta = [], Done = True,
               FinishReason = ''error'', Error = ''cancelled''\<rparr>] \<and>
         hget (metas (storage (finishJobWithError w jobID ''cancelled'' now)) jobID) ''status''
           = ''failed''"
proof -
  have "hget (hset h ([(''status'', StatusFailed)]
           @ (if now \<noteq> [] then [(''completed_at'', now)] else [])
           @ (if ''cancelled'' \<noteq> [] then [(''error'', ''cancelled'')] else []))) ''status''
         = ''failed''" for h
    using hget_status_update [of h StatusFailed now "''cancelled''"] by (simp add: StatusFailed_def)
  then show ?thesis
    using assms
    by (simp add: scanStep_cancelled finishJobWithError_nofault errorChunk_def)
qed

theorem cancel_observed_ends_failed_witness:
  "isCancelled (snd (Server_CancelJob w_queued ''j'' ''t1'')) ''j'' \<and>
   faults (storage (snd (Server_CancelJob w_queued ''j'' ''t1''))) = [] \<and>
   hget (metas (storage (snd (Server_CancelJob w_queued ''j'' ''t1''))) ''j'') ''status''
     = ''cancelled'' \<and>
   hget (metas (storage (finishJobWithError (snd (Server_CancelJob w_queued ''j'' ''t1''))
                           ''j'' ''cancelled'' ''t2'')) ''j'') ''status'' = ''failed'' \<and>
   chunkLists (storage w_s4) ''j'' =
     [\<lparr>Seq = 1, Delta = ''Hel'', Done = False, FinishReason = [], Error = []\<rparr>,
      \<lparr>Seq = 2, Delta = [], Done = True, FinishReason = ''error'', Error = ''cancelled''\<rparr>] \<and>
   hget (metas (storage w_s4) ''j'') ''status'' = ''failed''"
proof -
  let ?w = "snd (Server_CancelJob w_queued ''j'' ''t1'')"
  have a: "isCancelled ?w ''j''" "faults (storage ?w) = []"
    "hget (metas (storage ?w) ''j'') ''status'' = ''cancelled''"
    by (simp_all add: w_queued_eq storage_defs worker_defs)
  have b: "hget (metas (storage w_s4) ''j'') ''status'' = ''failed''"
    by (simp add: w_s4_store hget_def)
  show ?thesis
    using cancel_observed_ends_failed [OF a(1) a(2), where now = "''t2''"] a b
    by (simp add: w_s4_store)
qed

section \<open>The admission ceiling\<close>

text \<open>What \<open>processJob\<close> does between \<open>run_begin\<close> and \<open>run_end\<close> leaves admission alone.\<close>

lemma admission_storage [simp]: "admission (w\<lparr>storage := s\<rparr>) = admission w"
  by (simp add: admission_def)

lemma admission_finishJobWithError [simp]:
  "admission (finishJobWithError w j msg now) = admission w"
  by (simp add: finishJobWithError_def Let_def split: prod.splits)

lemma admission_CancelJob [simp]: "admission (snd (Server_CancelJob w j now)) = admission w"
  by (simp add: Server_CancelJob_def Cancel_def Let_def admission_def split: prod.splits option.splits)

lemma admission_scanStep: "admission (workerOf (scanStep dec now w j fr ln)) = admission w"
  by (simp add: scanStep_def Let_def split: sum.splits prod.splits)

lemma admission_scanLoop: "admission (fst (scanLoop dec now w j fr es)) = admission w"
proof (induction es arbitrary: w fr)
  case Nil
  then show ?case by simp
next
  case (Cons e es)
  show ?case
  proof (cases e)
    case (CancelCall k t)
    then show ?thesis using Cons.IH [of "snd (Server_CancelJob w k t)" fr] by simp
  next
    case (Line ln)
    show ?thesis
      using admission_scanStep [of dec now w j fr ln] Line Cons.IH
      by (cases "scanStep dec now w j fr ln") simp_all
  qed
qed

lemma admission_processJob: "admission (processJob dec now w j up) = admission w"
proof -
  have "admission w5 = admission w'" if "scanLoop dec now w' j fr es = (w5, b)" for w5 w' fr es b
    using admission_scanLoop [of dec now w' j fr es] that by simp
  then show ?thesis
    by (auto simp: processJob_def Let_def split: sum.splits prod.splits option.splits
        upstream.splits bool.splits)
qed

lemma busy_le: "busy es \<le> length es"
  by (simp add: busy_def)

lemma busy_update_Processing:
  "i < length es \<Longrightarrow> es ! i = Received j \<Longrightarrow> busy (es[i := Processing k]) = Suc (busy es)"
proof (induction es arbitrary: i)
  case Nil
  then show ?case by simp
next
  case (Cons e es)
  then show ?case by (cases i) (auto simp: busy_def)
qed

lemma busy_update_Idle:
  "i < length es \<Longrightarrow> es ! i = Processing j \<Longrightarrow> Suc (busy (es[i := Idle])) = busy es"
proof (induction es arbitrary: i)
  case Nil
  then show ?case by simp
next
  case (Cons e es)
  then show ?case by (cases i) (auto simp: busy_def)
qed

lemma busy_update_Received:
  "i < length es \<Longrightarrow> es ! i = Idle \<Longrightarrow> busy (es[i := Received j]) = busy es"
proof (induction es arbitrary: i)
  case Nil
  then show ?case by simp
next
  case (Cons e es)
  then show ?case by (cases i) (auto simp: busy_def)
qed

lemma admitted_boot: "admitted n (boot st n)"
  by (simp add: admitted_def boot_def NewWorker_def busy_def)

lemma admitted_step: "admitted n s \<Longrightarrow> step s a = Some s' \<Longrightarrow> admitted n s'"
proof (cases a)
  case (EnqCheck j)
  assume "admitted n s" "step s a = Some s'"
  then show ?thesis using EnqCheck by (auto simp: admitted_def split: option.splits)
next
  case (EnqSend j)
  assume "admitted n s" "step s a = Some s'"
  then show ?thesis using EnqSend
    by (auto simp: admitted_def Enqueue_send_def split: option.splits if_splits)
next
  case (EnqCount j)
  assume "admitted n s" "step s a = Some s'"
  then show ?thesis using EnqCount
    by (auto simp: admitted_def Enqueue_count_def split: if_splits)
next
  case (Recv i)
  assume "admitted n s" "step s a = Some s'"
  then show ?thesis using Recv
    by (auto simp: admitted_def busy_update_Received split: if_splits list.splits)
next
  case (Begin i)
  assume "admitted n s" "step s a = Some s'"
  then show ?thesis using Begin
    by (auto simp: admitted_def run_begin_def busy_update_Processing
        split: if_splits exec_state.splits)
next
  case (End i)
  assume a: "admitted n s" "step s a = Some s'"
  then obtain j where p: "i < length (execs s)" "execs s ! i = Processing j"
    using End by (auto split: if_splits exec_state.splits)
  have "Suc (busy ((execs s)[i := Idle])) = busy (execs s)"
    using p by (rule busy_update_Idle)
  then have "int (busy ((execs s)[i := Idle])) = int (busy (execs s)) - 1" by linarith
  then show ?thesis using a End p
    by (auto simp: admitted_def run_end_def)
qed

lemma admitted_exec: "admitted n s \<Longrightarrow> exec s as = Some s' \<Longrightarrow> admitted n s'"
proof (induction as arbitrary: s)
  case Nil
  then show ?case by simp
next
  case (Cons a as)
  then show ?case by (auto split: option.splits dest: admitted_step)
qed

lemma admission_bounds:
  assumes "exec (boot st n) as = Some s" and "0 \<le> n"
  shows "activeJobs (wk s) \<le> n \<and> int (length (queue (wk s))) \<le> 2 * n \<and>
         activeJobs (wk s) + int (length (queue (wk s))) \<le> 3 * n"
proof -
  have a: "admitted n s"
    using admitted_boot assms(1) by (rule admitted_exec)
  have "busy (execs s) \<le> length (execs s)" by (rule busy_le)
  then have "busy (execs s) \<le> nat n"
    using a by (simp add: admitted_def)
  then have "int (busy (execs s)) \<le> n"
    using assms(2) by linarith
  then have "activeJobs (wk s) \<le> n"
    using a by (simp add: admitted_def)
  moreover have "int (length (queue (wk s))) \<le> 2 * n"
    using a assms(2) by (simp add: admitted_def)
  ultimately show ?thesis by simp
qed

text \<open>
  C3. In every state reached by any interleaving of enqueue and dequeue steps,
  \<open>active \<le> N\<close> (and the channel holds at most \<open>2N\<close> jobs, see \<open>admission_bounds\<close>),
  but \<open>active + queued \<le> 2N\<close> does not hold. An executor takes a job out of the
  channel before it takes the mutex to count it as active, and in between the job is
  in neither number; \<open>Enqueue\<close> checks the load on such a snapshot. With \<open>N = 1\<close>,
  after \<open>raceTrace\<close> the counters are \<open>active = 1\<close> and \<open>queued = 2\<close> (the length of the
  channel, which is what \<open>GetStats\<close> reports, and the \<open>queuedJobs\<close> counter alike):
  3 against a ceiling of 2.
\<close>

theorem admission_ceiling_exceeded:
  "map_option (\<lambda>s. GetStats (wk s)) (exec (boot (emptyStorage []) 1) raceTrace)
     = Some [(''active'', 1), (''queued'', 2), (''capacity'', 1), (''max_queue'', 2)] \<and>
   map_option counters (exec (boot (emptyStorage []) 1) raceTrace) = Some (1, 2, 2, 2) \<and>
   \<not> ((1::int) + 2 \<le> 2 * 1)"
  by (simp add: raceTrace_def counters_def GetStats_def boot_def NewWorker_def Enqueue_check_def
      Enqueue_send_def Enqueue_count_def run_begin_def Let_def)

section \<open>The Gateway's cursor\<close>

lemma streamChunks_skip:
  "\<forall>c \<in> set replay. Seq c \<le> lastSeq \<Longrightarrow>
   streamChunks chatID created model lastSeq (replay @ fresh)
     = streamChunks chatID created model lastSeq fresh"
  by (induction replay) simp_all

lemma streamChunks_once:
  "sorted_wrt (<) (map Seq fresh) \<Longrightarrow> \<forall>c \<in> set fresh. lastSeq < Seq c \<Longrightarrow>
   fst (streamChunks chatID created model lastSeq fresh) = framesOnce chatID created model fresh"
proof (induction fresh arbitrary: lastSeq)
  case Nil
  then show ?case by simp
next
  case (Cons c cs)
  have "sorted_wrt (<) (map Seq cs)" and "\<forall>c' \<in> set cs. Seq c < Seq c'"
    using Cons.prems(1) by simp_all
  then have "fst (streamChunks chatID created model (Seq c) cs) = framesOnce chatID created model cs"
    by (rule Cons.IH)
  then show ?case
    using Cons.prems(2) by (auto split: prod.splits)
qed

lemma streamChunks_cursor:
  "streamChunks chatID created model lastSeq cs = (fs, l, r) \<Longrightarrow>
   lastSeq \<le> l \<and> (\<not> r \<longrightarrow> (\<forall>c \<in> set cs. Seq c \<le> l))"
proof (induction cs arbitrary: lastSeq fs)
  case Nil
  then show ?case by simp
next
  case (Cons c cs)
  show ?case
  proof (cases "Seq c \<le> lastSeq")
    case True
    then have "streamChunks chatID created model lastSeq cs = (fs, l, r)"
      using Cons.prems by simp
    from Cons.IH [OF this] show ?thesis using True by auto
  next
    case False
    show ?thesis
    proof (cases "Error c \<noteq> [] \<or> Done c")
      case True
      then show ?thesis using False Cons.prems by (auto split: if_splits)
    next
      case False
      obtain fs' l' r' where t: "streamChunks chatID created model (Seq c) cs = (fs', l', r')"
        by (cases "streamChunks chatID created model (Seq c) cs")
      then have "l' = l" "r' = r"
        using \<open>\<not> Seq c \<le> lastSeq\<close> False Cons.prems by auto
      then have "streamChunks chatID created model (Seq c) cs = (fs', l, r)"
        using t by simp
      from Cons.IH [OF this] show ?thesis
        using \<open>\<not> Seq c \<le> lastSeq\<close> by auto
    qed
  qed
qed

lemma streamLoop_cong:
  "ev_Status e1 = ev_Status e2 \<Longrightarrow>
   streamChunks chatID created model lastSeq (ev_Chunks e1)
     = streamChunks chatID created model lastSeq (ev_Chunks e2) \<Longrightarrow>
   streamLoop chatID created model lastSeq (PollOK e1 # ps)
     = streamLoop chatID created model lastSeq (PollOK e2 # ps)"
  by (simp split: prod.splits bool.splits)

lemma streamLoop_replay:
  "streamLoop chatID created model lastSeq
     (PollOK ev # PollOK (ev'\<lparr>ev_Chunks := ev_Chunks ev @ cs\<rparr>) # ps)
   = streamLoop chatID created model lastSeq
     (PollOK ev # PollOK (ev'\<lparr>ev_Chunks := cs\<rparr>) # ps)"
proof -
  obtain fs l r where t: "streamChunks chatID created model lastSeq (ev_Chunks ev) = (fs, l, r)"
    by (cases "streamChunks chatID created model lastSeq (ev_Chunks ev)")
  show ?thesis
  proof (cases r)
    case True
    then show ?thesis using t by simp
  next
    case False
    then have "\<forall>c \<in> set (ev_Chunks ev). Seq c \<le> l"
      using streamChunks_cursor [OF t] by simp
    then have "streamChunks chatID created model l (ev_Chunks ev @ cs)
                 = streamChunks chatID created model l cs"
      by (rule streamChunks_skip)
    then have second:
      "streamLoop chatID created model l (PollOK (ev'\<lparr>ev_Chunks := ev_Chunks ev @ cs\<rparr>) # ps)
         = streamLoop chatID created model l (PollOK (ev'\<lparr>ev_Chunks := cs\<rparr>) # ps)"
      by (intro streamLoop_cong) simp_all
    have first: "streamLoop chatID created model lastSeq (PollOK ev # rest) =
        (if ev_Status ev = ''completed'' \<or> ev_Status ev = ''failed''
              \<or> ev_Status ev = ''cancelled''
         then (if ev_Status ev \<noteq> ''completed''
               then (fs @ [SSEError (''job '' @ ev_Status ev)], True)
               else (fs @ [SSEDone], True))
         else (case streamLoop chatID created model l rest of (fs', r) \<Rightarrow> (fs @ fs', r)))"
      for rest
      using t False by simp
    show ?thesis by (simp only: first second)
  qed
qed

text \<open>
  C7. Chunks whose \<open>seq\<close> is at most the cursor \<open>lastSeq\<close> are skipped, so a replayed
  prefix changes nothing: fed a list that starts with replayed chunks
  (\<open>seq \<le> lastSeq\<close>) and goes on with new ones in ascending \<open>seq\<close> order, the
  streaming translation writes the frames, moves the cursor and ends exactly as on
  the new chunks alone, and the frames are those of feeding each new chunk once.
  Across polls likewise: if the Worker replays the whole previous batch ahead of the
  chunks of the next poll, the stream the client sees is the same.
\<close>

theorem stream_replay_idempotent:
  "((\<forall>c \<in> set replay. Seq c \<le> lastSeq) \<and> sorted_wrt (<) (map Seq fresh) \<and>
    (\<forall>c \<in> set fresh. lastSeq < Seq c) \<longrightarrow>
      streamChunks chatID created model lastSeq (replay @ fresh)
        = streamChunks chatID created model lastSeq fresh \<and>
      fst (streamChunks chatID created model lastSeq (replay @ fresh))
        = framesOnce chatID created model fresh) \<and>
   streamLoop chatID created model lastSeq
     (PollOK ev # PollOK (ev'\<lparr>ev_Chunks := ev_Chunks ev @ cs\<rparr>) # ps)
   = streamLoop chatID created model lastSeq
     (PollOK ev # PollOK (ev'\<lparr>ev_Chunks := cs\<rparr>) # ps)"
  using streamChunks_skip [of replay lastSeq chatID created model fresh]
    streamChunks_once [of fresh lastSeq chatID created model]
    streamLoop_replay [where chatID = chatID and created = created and model = model
      and lastSeq = lastSeq and ev = ev and ev' = ev' and cs = cs and ps = ps]
  by simp

theorem stream_replay_idempotent_witness:
  "map Seq (take 2 helloChunks) = [1, 2] \<and>
   map Seq (drop 2 helloChunks) = [3] \<and>
   fst (streamChunks ''chatcmpl-1'' 0 ''gpt-oss:20b'' 2 helloChunks)
     = [Data \<lparr>oa_ID = ''chatcmpl-1'', oa_Object = ''chat.completion.chunk'', oa_Created = 0,
              oa_Model = ''gpt-oss:20b'',
              oa_Choices = [\<lparr>ch_Index = 0, ch_Message = [], ch_Delta = [(''content'', [])],
                             ch_FinishReason = ''stop''\<rparr>]\<rparr>,
        SSEDone]"
proof -
  have a: "\<forall>c \<in> set (take 2 helloChunks). Seq c \<le> 2"
    "sorted_wrt (<) (map Seq (drop 2 helloChunks))"
    "\<forall>c \<in> set (drop 2 helloChunks). 2 < Seq c"
    by (simp_all add: helloChunks_def)
  have "take 2 helloChunks @ drop 2 helloChunks = helloChunks" by simp
  then show ?thesis
    using stream_replay_idempotent [where replay = "take 2 helloChunks"
        and fresh = "drop 2 helloChunks" and lastSeq = 2 and chatID = "''chatcmpl-1''"
        and created = 0 and model = "''gpt-oss:20b''"] a
    by (simp add: helloChunks_def chunkFrame_def)
qed

section \<open>The non-streaming aggregator\<close>

lemma scanLoop_records:
  assumes "isRecordLine l" and "dec (payloadOf l) = Inr r" and "\<not> rec_Done r"
  shows "\<not> isCancelled w j \<Longrightarrow> faults (storage w) = [] \<Longrightarrow>
    scanLoop dec now w j ''stop'' (replicate n (Line l) @ es) =
    scanLoop dec now
      (w\<lparr>storage := (storage w)
           \<lparr>seqs := (seqs (storage w))(j := seqs (storage w) j + int n),
            chunkLists := (chunkLists (storage w))
              (j := chunkLists (storage w) j
                    @ map (\<lambda>i. chunkOf r (seqs (storage w) j + 1 + int i)) [0..<n])\<rparr>\<rparr>)
      j ''stop'' es"
proof (induction n arbitrary: w)
  case 0
  then show ?case by simp
next
  case (Suc n)
  let ?w' = "w\<lparr>storage := (storage w)
                  \<lparr>seqs := (seqs (storage w))(j := seqs (storage w) j + 1),
                   chunkLists := (chunkLists (storage w))
                     (j := chunkLists (storage w) j @ [chunkOf r (seqs (storage w) j + 1)])\<rparr>\<rparr>"
  have step: "scanStep dec now w j ''stop'' l = Continue ?w' ''stop''"
    using scanStep_record [of w j l dec r now] Suc.prems assms
    by (simp add: Let_def)
  have nc: "\<not> isCancelled ?w' j" using Suc.prems(1) by (simp add: isCancelled_def)
  have nf: "faults (storage ?w') = []" using Suc.prems(2) by simp
  have m: "map (\<lambda>i. chunkOf r (seqs (storage w) j + 1 + int i)) [0..<Suc n]
         = chunkOf r (seqs (storage w) j + 1)
           # map (\<lambda>i. chunkOf r (seqs (storage w) j + 1 + 1 + int i)) [0..<n]"
    by (simp add: map_upt_Suc del: upt_Suc) (simp add: add.commute add.left_commute)
  let ?w2 = "?w'\<lparr>storage := (storage ?w')
           \<lparr>seqs := (seqs (storage ?w'))(j := seqs (storage ?w') j + int n),
            chunkLists := (chunkLists (storage ?w'))
              (j := chunkLists (storage ?w') j
                    @ map (\<lambda>i. chunkOf r (seqs (storage ?w') j + 1 + int i)) [0..<n])\<rparr>\<rparr>"
  let ?goal = "w\<lparr>storage := (storage w)
           \<lparr>seqs := (seqs (storage w))(j := seqs (storage w) j + int (Suc n)),
            chunkLists := (chunkLists (storage w))
              (j := chunkLists (storage w) j
                    @ map (\<lambda>i. chunkOf r (seqs (storage w) j + 1 + int i)) [0..<Suc n])\<rparr>\<rparr>"
  have lhs: "scanLoop dec now w j ''stop'' (replicate (Suc n) (Line l) @ es)
          = scanLoop dec now ?w' j ''stop'' (replicate n (Line l) @ es)"
    using step by simp
  have ih: "scanLoop dec now ?w' j ''stop'' (replicate n (Line l) @ es)
          = scanLoop dec now ?w2 j ''stop'' es"
    by (rule Suc.IH [OF nc nf])
  have eq: "?w2 = ?goal"
    unfolding m by (simp add: add.assoc)
  show ?case
    unfolding lhs ih eq ..
qed


lemma lo_line:
  "isRecordLine ''data: {content:lo,done:false}''"
  "dec0 (payloadOf ''data: {content:lo,done:false}'') = Inr (mkRecord ''lo'' False [])"
  "isRecordLine ''data: {content:,done:true,done_reason:stop}''"
  "dec0 (payloadOf ''data: {content:,done:true,done_reason:stop}'')
     = Inr (mkRecord [] True ''stop'')"
  by (simp_all add: isRecordLine_def payloadOf_def TrimSpace_def TrimPrefix_def HasPrefix_def
      isSpace_def dec0_def)

lemma run_long:
  "run_once dec0 ''t1'' w_queued
     (Resp 200 (replicate n (Line ''data: {content:lo,done:false}'')
                @ [Line ''data: {content:,done:true,done_reason:stop}'']) None) =
   \<lparr>storage = (emptyStorage [])
      \<lparr>metas := (\<lambda>_. [])(''j'' := [(''status'', ''completed''), (''model'', ''gpt-oss:20b''),
                                   (''created_at'', ''t0''), (''completed_at'', ''t1'')]),
       chunkLists := (\<lambda>_. [])(''j'' :=
          map (\<lambda>i. chunkOf (mkRecord ''lo'' False []) (1 + int i)) [0..<n]
          @ [chunkOf (mkRecord [] True ''stop'') (int n + 1)]),
       seqs := (\<lambda>_. 0)(''j'' := int n + 1),
       ttl_meta := (\<lambda>_. None)(''j'' \<mapsto> 86400),
       ttl_chunks := (\<lambda>_. None)(''j'' \<mapsto> 86400),
       ttl_seq := (\<lambda>_. None)(''j'' \<mapsto> 86400)\<rparr>,
    concurrency = 1, maxQueueSize = 2, queue = [], cancelled = (\<lambda>_. False),
    activeJobs = 0, queuedJobs = 0\<rparr>"
proof -
  let ?w4 = "\<lparr>storage = (emptyStorage [])
      \<lparr>metas := (\<lambda>_. [])(''j'' := [(''status'', ''running''), (''model'', ''gpt-oss:20b''),
                                   (''created_at'', ''t0'')])\<rparr>,
    concurrency = 1, maxQueueSize = 2, queue = [], cancelled = (\<lambda>_. False),
    activeJobs = 1, queuedJobs = 0\<rparr>"
  let ?w5 = "?w4\<lparr>storage := (storage ?w4)
           \<lparr>seqs := (seqs (storage ?w4))(''j'' := seqs (storage ?w4) ''j'' + int n),
            chunkLists := (chunkLists (storage ?w4))
              (''j'' := chunkLists (storage ?w4) ''j''
                    @ map (\<lambda>i. chunkOf (mkRecord ''lo'' False [])
                                  (seqs (storage ?w4) ''j'' + 1 + int i)) [0..<n])\<rparr>\<rparr>"
  let ?w6 = "?w5\<lparr>storage := (storage ?w5)
                  \<lparr>seqs := (seqs (storage ?w5))(''j'' := seqs (storage ?w5) ''j'' + 1),
                   chunkLists := (chunkLists (storage ?w5))
                     (''j'' := chunkLists (storage ?w5) ''j''
                        @ [chunkOf (mkRecord [] True ''stop'') (seqs (storage ?w5) ''j'' + 1)])\<rparr>\<rparr>"
  have nc: "\<not> isCancelled ?w4 ''j''" "faults (storage ?w4) = []"
    "\<not> isCancelled ?w5 ''j''" "faults (storage ?w5) = []"
    by (simp_all add: isCancelled_def emptyStorage_def)
  have "scanLoop dec0 ''t1'' ?w4 ''j'' ''stop''
          (replicate n (Line ''data: {content:lo,done:false}'')
           @ [Line ''data: {content:,done:true,done_reason:stop}''])
        = scanLoop dec0 ''t1'' ?w5 ''j'' ''stop''
            [Line ''data: {content:,done:true,done_reason:stop}'']"
    by (rule scanLoop_records [where dec = dec0 and r = "mkRecord ''lo'' False []"])
       (simp_all add: lo_line isCancelled_def emptyStorage_def mkRecord_def)
  also have "\<dots> = (?w6, False)"
    using scanStep_record [where dec = dec0 and r = "mkRecord [] True ''stop''"
        and w = ?w5 and j = "''j''" and now = "''t1''", OF nc(3) lo_line(3) lo_line(4) nc(4)]
    by (simp add: Let_def mkRecord_def)
  finally have loop: "scanLoop dec0 ''t1'' ?w4 ''j'' ''stop''
          (replicate n (Line ''data: {content:lo,done:false}'')
           @ [Line ''data: {content:,done:true,done_reason:stop}'']) = (?w6, False)" .
  have pre: "run_once dec0 ''t1'' w_queued
     (Resp 200 (replicate n (Line ''data: {content:lo,done:false}'')
                @ [Line ''data: {content:,done:true,done_reason:stop}'']) None) =
     run_end (case scanLoop dec0 ''t1'' ?w4 ''j'' ''stop''
          (replicate n (Line ''data: {content:lo,done:false}'')
           @ [Line ''data: {content:,done:true,done_reason:stop}'']) of
         (w5, True) \<Rightarrow> w5
       | (w5, False) \<Rightarrow>
           (let (e6, s6) = UpdateJobStatus (storage w5) ''j'' StatusCompleted ''t1'' [];
                (e7, s7) = SetTTL s6 ''j'' (24 * 3600)
            in w5\<lparr>storage := s7\<rparr>))"
    by (simp add: run_once_def w_queued_eq processJob_def run_begin_def GetJobMeta_def
        UpdateJobStatus_def HSet_def HGet_def rdb_def emptyStorage_def hset_def hget_def
        StatusRunning_def Let_def del: scanLoop.simps replicate.simps)
  show ?thesis
    unfolding pre loop
    by (simp add: run_end_def UpdateJobStatus_def HSet_def SetTTL_def rdb_def emptyStorage_def
        hset_def StatusCompleted_def Let_def add.commute)
qed


lemma GetEvents_nofault:
  assumes "faults (storage w) = []" and "metas (storage w) j \<noteq> []"
  shows "fst (Server_GetEvents w j q) =
     \<lparr>code = 200,
      body = EventsJSON
        \<lparr>ev_Status = hget (metas (storage w) j) ''status'',
         ev_Chunks = take 1000 (filter (\<lambda>c. fromSeqOf q < Seq c) (chunkLists (storage w) j))\<rparr>\<rparr>"
proof -
  have n: "(if q \<noteq> [] then (case Atoi q of Some seq \<Rightarrow> seq | None \<Rightarrow> - 1) else - 1)
             = fromSeqOf q"
    by (simp add: fromSeqOf_def)
  show ?thesis
    unfolding Server_GetEvents_def n using assms
    by (simp add: GetJobMeta_def rdb_nofault GetChunks_nofault Let_def)
qed

lemma aggChunks_plain:
  "\<forall>c \<in> set cs. Error c = [] \<and> \<not> Done c \<Longrightarrow> sorted_wrt (<) (lastSeq # map Seq cs) \<Longrightarrow>
   aggChunks lastSeq fullContent finishReason cs
     = Inr (last (lastSeq # map Seq cs), fullContent @ concat (map Delta cs), finishReason)"
proof (induction cs arbitrary: lastSeq fullContent)
  case Nil
  then show ?case by simp
next
  case (Cons c cs)
  have "sorted_wrt (<) (Seq c # map Seq cs)" using Cons.prems(2) by simp
  moreover have "\<forall>c \<in> set cs. Error c = [] \<and> \<not> Done c" using Cons.prems(1) by simp
  ultimately have "aggChunks (Seq c) (fullContent @ Delta c) finishReason cs
     = Inr (last (Seq c # map Seq cs), (fullContent @ Delta c) @ concat (map Delta cs),
            finishReason)"
    by (rule Cons.IH [rotated])
  then show ?case using Cons.prems by simp
qed

lemma sorted_chunk_numbers: "sorted_wrt (<) (map (\<lambda>i. 1 + int i) [0..<n])"
  by (simp add: sorted_wrt_map sorted_wrt_iff_nth_less)

lemma aggChunks_done_last:
  assumes "\<forall>c \<in> set cs. Error c = [] \<and> \<not> Done c" and "Error d = []" and "Done d"
    and "sorted_wrt (<) (lastSeq # map Seq (cs @ [d]))"
  shows "aggChunks lastSeq fullContent finishReason (cs @ [d])
           = Inr (Seq d, fullContent @ concat (map Delta (cs @ [d])), FinishReason d)"
  using assms
proof (induction cs arbitrary: lastSeq fullContent)
  case Nil
  then show ?case by simp
next
  case (Cons c cs)
  have "sorted_wrt (<) (Seq c # map Seq (cs @ [d]))" using Cons.prems(4) by simp
  moreover have "\<forall>c \<in> set cs. Error c = [] \<and> \<not> Done c" using Cons.prems(1) by simp
  ultimately have "aggChunks (Seq c) (fullContent @ Delta c) finishReason (cs @ [d])
     = Inr (Seq d, (fullContent @ Delta c) @ concat (map Delta (cs @ [d])), FinishReason d)"
    using Cons.prems(2,3) by (intro Cons.IH)
  then show ?case using Cons.prems by simp
qed

lemma aggLoop_answers:
  "aggLoop chatID created model lastSeq fullContent finishReason (CtxDone # ps)
     = JSONError ''timeout exceeded'' 504"
  "aggChunks lastSeq fullContent finishReason (ev_Chunks ev) = Inl err \<Longrightarrow>
   aggLoop chatID created model lastSeq fullContent finishReason (PollOK ev # ps)
     = JSONError err 500"
  "aggChunks lastSeq fullContent finishReason (ev_Chunks ev) = Inr x \<Longrightarrow>
   ev_Status ev = ''failed'' \<or> ev_Status ev = ''cancelled'' \<Longrightarrow>
   aggLoop chatID created model lastSeq fullContent finishReason (PollOK ev # ps)
     = JSONError (''job '' @ ev_Status ev) 500"
  by (auto split: prod.splits)

text \<open>
  C8. The error answers are what the handler gives (500 when the job
  is \<open>failed\<close> or \<open>cancelled\<close>, 504 on the overall timeout), but the envelope of a
  completed job does not always carry all the deltas. The handler answers as soon
  as a poll reports the status \<open>completed\<close>, with whatever it has accumulated, and
  one poll returns at most 1000 chunks. Below, a job whose backend emitted 1001
  content records and the done record is polled for the first time when it is
  finished: the answer holds the first 1000 deltas and an empty \<open>finish_reason\<close>,
  while the log holds 1001 deltas and the done chunk with \<open>stop\<close>.
\<close>

theorem aggregate_truncated_at_1000:
  "hget (metas (storage w_long) ''j'') ''status'' = ''completed'' \<and>
   map Delta (chunkLists (storage w_long) ''j'') = replicate 1001 ''lo'' @ [[]] \<and>
   FinishReason (last (chunkLists (storage w_long) ''j'')) = ''stop'' \<and>
   handleNonStreamingChat (Created ''j'') ''chatcmpl-1'' 0 ''gpt-oss:20b''
       [pollBackendEvents w_long ''j'' (- 1)] =
     Completion
       \<lparr>oa_ID = ''chatcmpl-1'', oa_Object = ''chat.completion'', oa_Created = 0,
        oa_Model = ''gpt-oss:20b'',
        oa_Choices = [\<lparr>ch_Index = 0,
                       ch_Message = [(''role'', ''assistant''),
                                     (''content'', concat (replicate 1000 ''lo''))],
                       ch_Delta = [], ch_FinishReason = []\<rparr>]\<rparr> \<and>
   length (concat (replicate 1000 ''lo'')) = 2000 \<and>
   length (concat (map Delta (chunkLists (storage w_long) ''j''))) = 2002"
proof -
  let ?f = "\<lambda>i. chunkOf (mkRecord ''lo'' False []) (1 + int i)"
  let ?d = "chunkOf (mkRecord [] True ''stop'') (int 1001 + 1)"
  have w: "w_long = \<lparr>storage = (emptyStorage [])
      \<lparr>metas := (\<lambda>_. [])(''j'' := [(''status'', ''completed''), (''model'', ''gpt-oss:20b''),
                                   (''created_at'', ''t0''), (''completed_at'', ''t1'')]),
       chunkLists := (\<lambda>_. [])(''j'' := map ?f [0..<1001] @ [?d]),
       seqs := (\<lambda>_. 0)(''j'' := int 1001 + 1),
       ttl_meta := (\<lambda>_. None)(''j'' \<mapsto> 86400),
       ttl_chunks := (\<lambda>_. None)(''j'' \<mapsto> 86400),
       ttl_seq := (\<lambda>_. None)(''j'' \<mapsto> 86400)\<rparr>,
    concurrency = 1, maxQueueSize = 2, queue = [], cancelled = (\<lambda>_. False),
    activeJobs = 0, queuedJobs = 0\<rparr>"
    unfolding w_long_def longAnswer_def by (rule run_long)
  have log: "chunkLists (storage w_long) ''j'' = map ?f [0..<1001] @ [?d]"
    and f: "faults (storage w_long) = []"
    and m: "metas (storage w_long) ''j'' = [(''status'', ''completed''), (''model'', ''gpt-oss:20b''),
                                   (''created_at'', ''t0''), (''completed_at'', ''t1'')]"
    by (simp_all add: w emptyStorage_def)
  have st: "hget (metas (storage w_long) ''j'') ''status'' = ''completed''"
    by (simp add: m hget_def)
  have deltas: "map Delta (chunkLists (storage w_long) ''j'') = replicate 1001 ''lo'' @ [[]]"
    unfolding log by (simp add: chunkOf_def mkRecord_def comp_def map_replicate_const del: upt_Suc)
  have fin: "FinishReason (last (chunkLists (storage w_long) ''j'')) = ''stop''"
    unfolding log by (simp add: chunkOf_def mkRecord_def del: upt_Suc)
  have q: "fromSeqOf (itoa (- 1)) = - 1"
    by (rule fromSeqOf_itoa) simp_all
  have "filter (\<lambda>c. - 1 < Seq c) (map ?f [0..<1001] @ [?d]) = map ?f [0..<1001] @ [?d]"
    by (rule filter_True) (auto simp: chunkOf_def)
  moreover have "take 1000 (map ?f [0..<1001] @ [?d]) = map ?f [0..<1000]"
    by (simp add: take_map del: upt_Suc)
  ultimately have cs: "take 1000 (filter (\<lambda>c. fromSeqOf (itoa (- 1)) < Seq c)
                         (chunkLists (storage w_long) ''j'')) = map ?f [0..<1000]"
    unfolding q log by simp
  have ev: "fst (Server_GetEvents w_long ''j'' (itoa (- 1))) =
     \<lparr>code = 200,
      body = EventsJSON \<lparr>ev_Status = ''completed'', ev_Chunks = map ?f [0..<1000]\<rparr>\<rparr>"
    using GetEvents_nofault [of w_long "''j''" "itoa (- 1)"] f m st cs by simp
  have poll: "pollBackendEvents w_long ''j'' (- 1)
                = PollOK \<lparr>ev_Status = ''completed'', ev_Chunks = map ?f [0..<1000]\<rparr>"
    unfolding pollBackendEvents_def ev by simp
  have "sorted_wrt (<) (map Seq (map ?f [0..<1000]))"
    using sorted_chunk_numbers [of 1000] by (simp add: chunkOf_def comp_def del: upt_Suc)
  moreover have "\<forall>x \<in> set (map Seq (map ?f [0..<1000])). - 1 < x"
    by (auto simp: chunkOf_def)
  ultimately have "sorted_wrt (<) (- 1 # map Seq (map ?f [0..<1000]))"
    by simp
  moreover have "\<forall>c \<in> set (map ?f [0..<1000]). Error c = [] \<and> \<not> Done c"
    by (auto simp: chunkOf_def mkRecord_def)
  ultimately have agg: "aggChunks (- 1) [] [] (map ?f [0..<1000])
     = Inr (last (- 1 # map Seq (map ?f [0..<1000])),
            [] @ concat (map Delta (map ?f [0..<1000])), [])"
    by (rule aggChunks_plain [rotated])
  have content: "concat (map Delta (map ?f [0..<1000])) = concat (replicate 1000 ''lo'')"
    by (simp add: chunkOf_def mkRecord_def comp_def map_replicate_const del: upt_Suc)
  have resp: "handleNonStreamingChat (Created ''j'') ''chatcmpl-1'' 0 ''gpt-oss:20b''
       [pollBackendEvents w_long ''j'' (- 1)] =
     Completion
       \<lparr>oa_ID = ''chatcmpl-1'', oa_Object = ''chat.completion'', oa_Created = 0,
        oa_Model = ''gpt-oss:20b'',
        oa_Choices = [\<lparr>ch_Index = 0,
                       ch_Message = [(''role'', ''assistant''),
                                     (''content'', concat (replicate 1000 ''lo''))],
                       ch_Delta = [], ch_FinishReason = []\<rparr>]\<rparr>"
    unfolding poll handleNonStreamingChat_def using agg content
    by (simp del: upt_Suc aggChunks.simps)
  have l1: "length (concat (replicate 1000 ''lo'')) = 2000"
    by (simp add: length_concat sum_list_replicate)
  have l2: "length (concat (map Delta (chunkLists (storage w_long) ''j''))) = 2002"
    unfolding deltas by (simp add: length_concat sum_list_replicate)
  show ?thesis using st deltas fin resp l1 l2 by simp
qed

end
